theory Spec2Isabelle
  imports Main
begin

section \<open>Data model\<close>

text \<open>
  The orchestrator of \<^verbatim>\<open>internal/syncer/syncer.go\<close> talks to four collaborators that
  are not part of its own logic: the Google source adapter, the iCloud destination
  adapter, the UUID generator and the file system. Every call to one of them is
  appended to a trace, together with the answer it gave, and the answer itself comes
  from an environment whose functions may depend on the whole trace so far. A claim
  that an operation "is never invoked" is a claim about the trace.
\<close>

subsection \<open>Errors\<close>

type_synonym errno = nat

definition ENOENT :: errno where
  "ENOENT = 2"

datatype json_error = SyntaxError string | UnmarshalTypeError string

text \<open>
  Go errors as values: \<open>PathError op path errno\<close> is what the \<^verbatim>\<open>os\<close> package returns,
  \<open>JSONError\<close> what \<^verbatim>\<open>encoding/json\<close> returns, \<open>Wrap msg err\<close> is
  \<^verbatim>\<open>fmt.Errorf(msg + ": %w", err)\<close>, and \<open>ErrorString\<close> any other error of a collaborator.
\<close>

datatype error =
    PathError string string errno
  | JSONError json_error
  | Wrap string error
  | ErrorString string

text \<open>
  \<^verbatim>\<open>os.IsNotExist\<close> looks through a \<^verbatim>\<open>*PathError\<close> only (it predates \<^verbatim>\<open>errors.Is\<close> and does
  not unwrap \<^verbatim>\<open>%w\<close>), and answers true for \<^verbatim>\<open>ENOENT\<close>.
\<close>

fun os_IsNotExist :: "error \<Rightarrow> bool" where
  "os_IsNotExist (PathError opn path e) = (e = ENOENT)"
| "os_IsNotExist (JSONError je) = False"
| "os_IsNotExist (Wrap msg err) = False"
| "os_IsNotExist (ErrorString msg) = False"

text \<open>A call either returns or panics (a Go run-time panic unwinds the whole cycle).\<close>

datatype 'a outcome = is_Panic: Panic string | Return 'a

subsection \<open>Events\<close>

type_synonym Location = string

text \<open>
  \<^verbatim>\<open>time.Time\<close>: an absolute instant (nanoseconds since the epoch) and the location in
  which it is displayed. \<^verbatim>\<open>Time.In\<close> returns the same instant with the location replaced.
\<close>

record Time =
  instant :: int
  loc :: Location

definition time_In :: "Time \<Rightarrow> Location \<Rightarrow> Time" where
  "time_In t l = t\<lparr>loc := l\<rparr>"

text \<open>\<^verbatim>\<open>models.Event\<close>, field by field.\<close>

record Event =
  ID :: string
  Title :: string
  Description :: string
  StartTime :: Time
  EndTime :: Time
  Location :: string
  Organizer :: string
  Attendees :: "string list"
  Source :: string
  UID :: string

subsection \<open>The sync state\<close>

text \<open>
  \<^verbatim>\<open>type SyncState map[string]string\<close>. A Go map value can be nil: reading a nil map
  finds no key, assigning to it panics. \<open>None\<close> is the nil map (what
  \<^verbatim>\<open>json.Unmarshal\<close> leaves in \<^verbatim>\<open>var state SyncState\<close> for the document \<^verbatim>\<open>null\<close>),
  \<open>Some m\<close> an allocated one.
\<close>

type_synonym SyncState = "(string \<rightharpoonup> string) option"

fun state_get :: "SyncState \<Rightarrow> string \<Rightarrow> string option" where
  "state_get None k = None"
| "state_get (Some m) k = m k"

definition state_has :: "SyncState \<Rightarrow> string \<Rightarrow> bool" where
  "state_has st k = (state_get st k \<noteq> None)"

definition stateFile :: string where
  "stateFile = ''sync-state.json''"

subsection \<open>The syncer and its collaborators\<close>

type_synonym CalendarClient = string
type_synonym CalDAVClient = string

datatype Level = Debug | Info | Warn | Error

text \<open>
  The fields of \<^verbatim>\<open>Syncer\<close>. A Google client is named by its account, the iCloud client by its
  calendar URL, the logger by its level. Pointers (the clients, the events, the location)
  are taken as valid, as \<^verbatim>\<open>syncCommand\<close> builds them.
\<close>

record Syncer =
  logger :: Level
  googleClients :: "CalendarClient list"
  googleCalIDs :: "string list"
  icloudClient :: CalDAVClient
  state :: SyncState
  dryRun :: bool
  primaryTimeZone :: Location

text \<open>One entry of the trace: the call and what it answered.\<close>

datatype call =
    Log Level string
  | GetUpcomingEvents CalendarClient string int "error + Event list"
  | GenerateUID string
  | ICloudSyncEvent CalDAVClient Event "error option"
  | ReadFile string "errno + string"
  | WriteFile string string "errno option"

text \<open>
  The environment: what each collaborator answers, given the trace so far. The two JSON
  functions are pure. Nothing is assumed about any of them.
\<close>

record env =
  google_GetUpcomingEvents :: "call list \<Rightarrow> CalendarClient \<Rightarrow> string \<Rightarrow> int \<Rightarrow> error + Event list"
  icloud_SyncEvent :: "call list \<Rightarrow> CalDAVClient \<Rightarrow> Event \<Rightarrow> error option"
  uuid_New_String :: "call list \<Rightarrow> string"
  os_ReadFile :: "call list \<Rightarrow> string \<Rightarrow> errno + string"
  os_WriteFile :: "call list \<Rightarrow> string \<Rightarrow> string \<Rightarrow> errno option"
  json_Unmarshal :: "string \<Rightarrow> json_error + SyncState"
  json_MarshalIndent :: "SyncState \<Rightarrow> error + string"

section \<open>The operations of the syncer\<close>

text \<open>\<^verbatim>\<open>strings.Split(s, sep)\<close> for a one-character separator: never an empty list.\<close>

fun strings_Split :: "string \<Rightarrow> char \<Rightarrow> string list" where
  "strings_Split [] sep = [[]]"
| "strings_Split (c # cs) sep =
     (if c = sep then [] # strings_Split cs sep
      else (case strings_Split cs sep of
              [] \<Rightarrow> [[c]]
            | w # ws \<Rightarrow> (c # w) # ws))"

text \<open>\<^verbatim>\<open>loadState\<close>: read the file, then parse it.\<close>

definition loadState :: "env \<Rightarrow> call list \<Rightarrow> (error + SyncState) \<times> call list" where
  "loadState env tr =
     (let r = os_ReadFile env tr stateFile;
          tr1 = tr @ [ReadFile stateFile r]
      in case r of
           Inl e \<Rightarrow> (Inl (PathError ''open'' stateFile e), tr1)
         | Inr data \<Rightarrow>
             (case json_Unmarshal env data of
                Inl je \<Rightarrow> (Inl (JSONError je), tr1)
              | Inr st \<Rightarrow> (Inr st, tr1)))"

text \<open>\<^verbatim>\<open>saveState\<close>: serialise the map, then overwrite the file.\<close>

definition saveState :: "env \<Rightarrow> Syncer \<Rightarrow> call list \<Rightarrow> error option \<times> call list" where
  "saveState env s tr =
     (case json_MarshalIndent env (state s) of
        Inl err \<Rightarrow> (Some (Wrap ''failed to marshal sync state'' err), tr)
      | Inr data \<Rightarrow>
          (let r = os_WriteFile env tr stateFile data
           in (map_option (PathError ''open'' stateFile) r, tr @ [WriteFile stateFile data r])))"

text \<open>\<^verbatim>\<open>NewSyncer\<close>: a missing state file gives a fresh map, any other load error is returned.\<close>

definition NewSyncer ::
  "env \<Rightarrow> Level \<Rightarrow> CalendarClient list \<Rightarrow> string list \<Rightarrow> CalDAVClient \<Rightarrow> bool \<Rightarrow> Location
     \<Rightarrow> call list \<Rightarrow> (error + Syncer) \<times> call list" where
  "NewSyncer env lg gClients gCalIDs iClient dry tz tr =
     (case loadState env tr of
        (Inl err, tr1) \<Rightarrow>
          (if os_IsNotExist err
           then (Inr \<lparr>logger = lg, googleClients = gClients, googleCalIDs = gCalIDs,
                       icloudClient = iClient, state = Some Map.empty, dryRun = dry,
                       primaryTimeZone = tz\<rparr>,
                 tr1 @ [Log Info ''No sync state file found, starting fresh.''])
           else (Inl (Wrap ''failed to load sync state'' err), tr1))
      | (Inr st, tr1) \<Rightarrow>
          (Inr \<lparr>logger = lg, googleClients = gClients, googleCalIDs = gCalIDs,
                 icloudClient = iClient, state = st, dryRun = dry,
                 primaryTimeZone = tz\<rparr>,
           tr1))"

text \<open>
  \<^verbatim>\<open>syncEvent\<close>. The event is passed by pointer and mutated in place, so the model
  returns it next to the error, the syncer and the trace.
\<close>

definition syncEvent ::
  "env \<Rightarrow> Syncer \<Rightarrow> call list \<Rightarrow> Event \<Rightarrow> error option outcome \<times> Event \<times> Syncer \<times> call list" where
  "syncEvent env s tr event =
     (if state_has (state s) (ID event)
      then (Return None, event, s, tr @ [Log Debug ''Event already synced, skipping.''])
      else
        (let tr1 = tr @ [Log Info ''New event found, syncing to iCloud.''];
             tr2 = (if UID event = []
                    then tr1 @ [Log Warn ''Google event has no UID, generating a new one.'']
                    else tr1);
             event1 = (if UID event = [] then event\<lparr>UID := uuid_New_String env tr2\<rparr> else event);
             tr3 = (if UID event = [] then tr2 @ [GenerateUID (UID event1)] else tr2);
             event2 = event1\<lparr>StartTime := time_In (StartTime event1) (primaryTimeZone s)\<rparr>;
             event3 = event2\<lparr>EndTime := time_In (EndTime event2) (primaryTimeZone s)\<rparr>
         in if dryRun s
            then (Return None, event3, s,
                  tr3 @ [Log Info ''[DRY RUN] Would create new event in iCloud''])
            else
              (let r = icloud_SyncEvent env tr3 (icloudClient s) event3;
                   tr4 = tr3 @ [ICloudSyncEvent (icloudClient s) event3 r]
               in case r of
                    Some err \<Rightarrow>
                      (Return (Some (Wrap ''failed to sync event to icloud'' err)), event3, s, tr4)
                  | None \<Rightarrow>
                      (case state s of
                         None \<Rightarrow> (Panic ''assignment to entry in nil map'', event3, s, tr4)
                       | Some m \<Rightarrow>
                           (Return None, event3,
                            s\<lparr>state := Some (m(ID event3 \<mapsto> UID event3))\<rparr>, tr4)))))"

text \<open>The inner loop of \<^verbatim>\<open>fetchAllGoogleEvents\<close>: one client, every calendar id.\<close>

fun fetchCalendars ::
  "env \<Rightarrow> CalendarClient \<Rightarrow> call list \<Rightarrow> Event list \<Rightarrow> string list \<Rightarrow> Event list \<times> call list" where
  "fetchCalendars env client tr allEvents [] = (allEvents, tr)"
| "fetchCalendars env client tr allEvents (calID # rest) =
     (let r = google_GetUpcomingEvents env tr client calID 7;
          tr1 = tr @ [GetUpcomingEvents client calID 7 r]
      in case r of
           Inl err \<Rightarrow>
             fetchCalendars env client
               (tr1 @ [Log Error ''Could not fetch events for a google calendar'']) allEvents rest
         | Inr events \<Rightarrow> fetchCalendars env client tr1 (allEvents @ events) rest)"

text \<open>The outer loop: every client.\<close>

fun fetchClients ::
  "env \<Rightarrow> string list \<Rightarrow> call list \<Rightarrow> Event list \<Rightarrow> CalendarClient list \<Rightarrow> Event list \<times> call list" where
  "fetchClients env calendarIDs tr allEvents [] = (allEvents, tr)"
| "fetchClients env calendarIDs tr allEvents (client # rest) =
     (case fetchCalendars env client tr allEvents calendarIDs of
        (allEvents1, tr1) \<Rightarrow> fetchClients env calendarIDs tr1 allEvents1 rest)"

text \<open>
  \<^verbatim>\<open>fetchAllGoogleEvents\<close>. \<^verbatim>\<open>s.googleCalIDs[0]\<close> is an unguarded index: on an empty
  slice the Go run time panics.
\<close>

definition fetchAllGoogleEvents ::
  "env \<Rightarrow> Syncer \<Rightarrow> call list \<Rightarrow> (Event list \<times> error option) outcome \<times> call list" where
  "fetchAllGoogleEvents env s tr =
     (case googleCalIDs s of
        [] \<Rightarrow> (Panic ''index out of range [0] with length 0'', tr)
      | ids0 # others \<Rightarrow>
          (case fetchClients env (strings_Split ids0 (CHR '','')) tr [] (googleClients s) of
             (allEvents, tr1) \<Rightarrow> (Return (allEvents, None), tr1)))"

text \<open>The event loop of \<^verbatim>\<open>Sync\<close>: an error of one event is logged, a panic unwinds.\<close>

fun syncEvents :: "env \<Rightarrow> Syncer \<Rightarrow> call list \<Rightarrow> Event list \<Rightarrow> unit outcome \<times> Syncer \<times> call list" where
  "syncEvents env s tr [] = (Return (), s, tr)"
| "syncEvents env s tr (event # rest) =
     (case syncEvent env s tr event of
        (Panic msg, event1, s1, tr1) \<Rightarrow> (Panic msg, s1, tr1)
      | (Return None, event1, s1, tr1) \<Rightarrow> syncEvents env s1 tr1 rest
      | (Return (Some err), event1, s1, tr1) \<Rightarrow>
          syncEvents env s1 (tr1 @ [Log Error ''Failed to sync event'']) rest)"

text \<open>\<^verbatim>\<open>Sync\<close>: one cycle.\<close>

definition Sync :: "env \<Rightarrow> Syncer \<Rightarrow> call list \<Rightarrow> error option outcome \<times> Syncer \<times> call list" where
  "Sync env s tr =
     (case fetchAllGoogleEvents env s (tr @ [Log Info ''Starting sync cycle.'']) of
        (Panic msg, tr1) \<Rightarrow> (Panic msg, s, tr1)
      | (Return (googleEvents, Some err), tr1) \<Rightarrow>
          (Return (Some (Wrap ''failed to fetch google events'' err)), s, tr1)
      | (Return (googleEvents, None), tr1) \<Rightarrow>
          (case syncEvents env s (tr1 @ [Log Info ''Fetched all Google events.'']) googleEvents of
             (Panic msg, s1, tr2) \<Rightarrow> (Panic msg, s1, tr2)
           | (Return u, s1, tr2) \<Rightarrow>
               (let tr3 = (if \<not> dryRun s1
                           then (case saveState env s1 tr2 of
                                   (Some err, tr') \<Rightarrow> tr' @ [Log Error ''Failed to save sync state'']
                                 | (None, tr') \<Rightarrow> tr')
                           else tr2)
                in (Return None, s1, tr3 @ [Log Info ''Sync cycle finished.'']))))"

section \<open>Reading the trace\<close>

text \<open>The events handed to the destination create operation, in order.\<close>

fun creates :: "call list \<Rightarrow> Event list" where
  "creates [] = []"
| "creates (ICloudSyncEvent c e r # tr) = e # creates tr"
| "creates (x # tr) = creates tr"

text \<open>The events whose create the destination refused, in order.\<close>

fun failed_creates :: "call list \<Rightarrow> Event list" where
  "failed_creates [] = []"
| "failed_creates (ICloudSyncEvent c e (Some err) # tr) = e # failed_creates tr"
| "failed_creates (x # tr) = failed_creates tr"

text \<open>The data written to the state file, in order.\<close>

fun writes :: "call list \<Rightarrow> string list" where
  "writes [] = []"
| "writes (WriteFile path data r # tr) = data # writes tr"
| "writes (x # tr) = writes tr"

text \<open>The events the source adapter delivered (failed fetches deliver none), in order.\<close>

fun fetched :: "call list \<Rightarrow> Event list" where
  "fetched [] = []"
| "fetched (GetUpcomingEvents c calID days (Inr events) # tr) = events @ fetched tr"
| "fetched (x # tr) = fetched tr"

text \<open>The (client, calendar id) pairs that were queried, in order.\<close>

fun queried :: "call list \<Rightarrow> (CalendarClient \<times> string) list" where
  "queried [] = []"
| "queried (GetUpcomingEvents c calID days r # tr) = (c, calID) # queried tr"
| "queried (x # tr) = queried tr"

text \<open>
  An entry of the trace is answered by the environment when the answer it records is what
  the environment answers to that call after the calls before it; a stretch of the trace
  is, when each of its entries is. Log lines carry no answer.
\<close>

fun answered :: "env \<Rightarrow> call list \<Rightarrow> call \<Rightarrow> bool" where
  "answered env pre (Log lvl msg) = True"
| "answered env pre (GetUpcomingEvents c calID days r) =
     (r = google_GetUpcomingEvents env pre c calID days)"
| "answered env pre (GenerateUID u) = (u = uuid_New_String env pre)"
| "answered env pre (ICloudSyncEvent c e r) = (r = icloud_SyncEvent env pre c e)"
| "answered env pre (ReadFile path r) = (r = os_ReadFile env pre path)"
| "answered env pre (WriteFile path data r) = (r = os_WriteFile env pre path data)"

fun consistent :: "env \<Rightarrow> call list \<Rightarrow> call list \<Rightarrow> bool" where
  "consistent env pre [] = True"
| "consistent env pre (c # rest) = (answered env pre c \<and> consistent env (pre @ [c]) rest)"

text \<open>What a run added to the trace it started from.\<close>

definition since :: "call list \<Rightarrow> call list \<Rightarrow> call list" where
  "since tr tr' = drop (length tr) tr'"

section \<open>Example runs\<close>

text \<open>
  A small concrete world, used to evaluate the operations: one account, two calendars of
  which "work" cannot be fetched and "home" holds three events; the destination refuses
  the event "g3"; the state file does not exist at start-up; \<open>w\<close> is what writing the
  state file answers.
\<close>

definition ev :: "string \<Rightarrow> string \<Rightarrow> Event" where
  "ev i u =
     \<lparr>ID = i, Title = ''standup'', Description = [],
      StartTime = \<lparr>instant = 0, loc = ''UTC''\<rparr>, EndTime = \<lparr>instant = 3600, loc = ''UTC''\<rparr>,
      Location = [], Organizer = [], Attendees = [], Source = ''google-home'', UID = u\<rparr>"

text \<open>A stand-in for the JSON encoder: the entries of the three example keys.\<close>

definition demo_json :: "SyncState \<Rightarrow> string" where
  "demo_json st =
     (case st of
        None \<Rightarrow> ''null''
      | Some m \<Rightarrow>
          ''{'' @ concat (map (\<lambda>k. case m k of None \<Rightarrow> [] | Some v \<Rightarrow> k @ '':'' @ v @ '';'')
                            [''g1'', ''g2'', ''g3'']) @ ''}'')"

definition demo_env :: "errno option \<Rightarrow> env" where
  "demo_env w =
     \<lparr>google_GetUpcomingEvents =
        (\<lambda>tr c calID days.
           if calID = ''work'' then Inl (ErrorString ''503'')
           else Inr [ev ''g1'' [], ev ''g2'' ''uid-b'', ev ''g3'' ''uid-c'']),
      icloud_SyncEvent = (\<lambda>tr c e. if ID e = ''g3'' then Some (ErrorString ''507'') else None),
      uuid_New_String = (\<lambda>tr. ''uuid-1''),
      os_ReadFile = (\<lambda>tr path. Inl ENOENT),
      os_WriteFile = (\<lambda>tr path data. w),
      json_Unmarshal = (\<lambda>data. Inl (SyntaxError ''unexpected end of JSON input'')),
      json_MarshalIndent = (\<lambda>st. Inr (demo_json st))\<rparr>"

definition demo_syncer :: "bool \<Rightarrow> Syncer" where
  "demo_syncer dry =
     \<lparr>logger = Info, googleClients = [''alice''], googleCalIDs = [''work,home''],
      icloudClient = ''/calendars/home/'', state = Some [''g2'' \<mapsto> ''uid-b''],
      dryRun = dry, primaryTimeZone = ''Europe/Paris''\<rparr>"

text \<open>
  Two cycles in succession in that world, the state file being written without error: the
  second starts from the syncer and the trace the first ended with.
\<close>

definition twice_run1 :: "error option outcome \<times> Syncer \<times> call list" where
  "twice_run1 = Sync (demo_env None) (demo_syncer False) []"

definition twice_run2 :: "error option outcome \<times> Syncer \<times> call list" where
  "twice_run2 = Sync (demo_env None) (fst (snd twice_run1)) (snd (snd twice_run1))"

text \<open>
  The same two cycles from a state that already holds "g3", the one event the destination
  refuses: no create of the first cycle fails.
\<close>

definition calm_syncer :: Syncer where
  "calm_syncer = (demo_syncer False)\<lparr>state := Some [''g2'' \<mapsto> ''uid-b'', ''g3'' \<mapsto> ''uid-c'']\<rparr>"

definition calm_run1 :: "error option outcome \<times> Syncer \<times> call list" where
  "calm_run1 = Sync (demo_env None) calm_syncer []"

definition calm_run2 :: "error option outcome \<times> Syncer \<times> call list" where
  "calm_run2 = Sync (demo_env None) (fst (snd calm_run1)) (snd (snd calm_run1))"

text \<open>
  The example world with a state file that holds the JSON document \<^verbatim>\<open>null\<close>, which
  \<^verbatim>\<open>json.Unmarshal\<close> accepts and for which it leaves the map nil.
\<close>

definition null_env :: env where
  "null_env = (demo_env None)
     \<lparr>os_ReadFile := (\<lambda>tr path. Inr ''null''),
      json_Unmarshal := (\<lambda>data. if data = ''null'' then Inr None
                                 else Inl (SyntaxError ''unexpected end of JSON input''))\<rparr>"

text \<open>
  What \<open>NewSyncer\<close> returns in that world, as \<^verbatim>\<open>syncCommand\<close> calls it with the default
  time zone, and the trace it leaves.
\<close>

definition null_syncer :: Syncer where
  "null_syncer =
     \<lparr>logger = Info, googleClients = [''alice''], googleCalIDs = [''work,home''],
      icloudClient = ''/calendars/home/'', state = None, dryRun = False,
      primaryTimeZone = ''UTC''\<rparr>"

definition null_trace :: "call list" where
  "null_trace = [ReadFile ''sync-state.json'' (Inr ''null'')]"

section \<open>The trace only grows\<close>

lemma creates_append: "creates (a @ b) = creates a @ creates b"
  by (induction a rule: creates.induct) simp_all

lemma failed_creates_append: "failed_creates (a @ b) = failed_creates a @ failed_creates b"
  by (induction a rule: failed_creates.induct) simp_all

lemma writes_append: "writes (a @ b) = writes a @ writes b"
  by (induction a rule: writes.induct) simp_all

lemma fetched_append: "fetched (a @ b) = fetched a @ fetched b"
  by (induction a rule: fetched.induct) simp_all

lemma queried_append: "queried (a @ b) = queried a @ queried b"
  by (induction a rule: queried.induct) simp_all

lemmas trace_append =
  creates_append failed_creates_append writes_append fetched_append queried_append

lemma since_append: "since tr (tr @ ext) = ext"
  by (simp add: since_def)

lemma failed_subset_creates: "set (failed_creates tr) \<subseteq> set (creates tr)"
  by (induction tr rule: failed_creates.induct) auto

subsection \<open>One event\<close>

lemma syncEvent_known:
  assumes "state_has (state s) (ID event)"
  shows "syncEvent env s tr event =
           (Return None, event, s, tr @ [Log Debug ''Event already synced, skipping.''])"
  using assms by (simp add: syncEvent_def)

lemma syncEvent_ext:
  assumes "syncEvent env s tr event = (r, event', s', tr')"
  shows "\<exists>ext. tr' = tr @ ext \<and> writes ext = [] \<and> fetched ext = [] \<and> queried ext = [] \<and>
           (\<forall>c \<in> set (creates ext). ID c = ID event \<and> \<not> state_has (state s) (ID event))"
  using assms
  by (auto simp: syncEvent_def Let_def time_In_def trace_append
           split: if_splits option.splits)

lemma syncEvent_frame:
  assumes "syncEvent env s tr event = (r, event', s', tr')"
  shows "logger s' = logger s \<and> googleClients s' = googleClients s \<and>
         googleCalIDs s' = googleCalIDs s \<and> icloudClient s' = icloudClient s \<and>
         dryRun s' = dryRun s \<and> primaryTimeZone s' = primaryTimeZone s"
  using assms
  by (auto simp: syncEvent_def Let_def split: if_splits option.splits)

lemma syncEvent_keeps:
  assumes "syncEvent env s tr event = (r, event', s', tr')" "state_has (state s) k"
  shows "state_get (state s') k = state_get (state s) k"
  using assms
  by (auto simp: syncEvent_def Let_def state_has_def time_In_def split: if_splits option.splits)

lemma syncEvent_mono:
  assumes "syncEvent env s tr event = (r, event', s', tr')" "state_has (state s) k"
  shows "state_has (state s') k"
  using syncEvent_keeps [OF assms] assms(2) by (simp add: state_has_def)

lemma syncEvent_dry:
  "dryRun s \<Longrightarrow> syncEvent env s tr event = (r, event', s', tr') \<Longrightarrow>
     s' = s \<and> r = Return None \<and> creates (since tr tr') = []"
  by (auto simp: syncEvent_def Let_def since_def creates_append split: if_splits)

subsection \<open>The event loop\<close>

text \<open>
  What one step of the loop appends after the event's own calls: the error line, if the
  event failed.
\<close>

lemma syncEvents_Cons:
  assumes "syncEvent env s tr e = (Return err, e1, s1, tr1)"
  shows "\<exists>lg. syncEvents env s tr (e # es) = syncEvents env s1 (tr1 @ lg) es \<and>
           creates lg = [] \<and> failed_creates lg = [] \<and> writes lg = [] \<and>
           fetched lg = [] \<and> queried lg = []"
proof (cases err)
  case None
  with assms have "syncEvents env s tr (e # es) = syncEvents env s1 (tr1 @ []) es" by simp
  then show ?thesis by (intro exI [of _ "[]"]) simp
next
  case (Some x)
  with assms have "syncEvents env s tr (e # es) =
      syncEvents env s1 (tr1 @ [Log Error ''Failed to sync event'']) es" by simp
  then show ?thesis by (intro exI [of _ "[Log Error ''Failed to sync event'']"]) simp
qed

lemma syncEvents_Panic:
  assumes "syncEvent env s tr e = (Panic msg, e1, s1, tr1)"
  shows "syncEvents env s tr (e # es) = (Panic msg, s1, tr1)"
  using assms by simp

lemma syncEvents_frame:
  "syncEvents env s tr evs = (r, s', tr') \<Longrightarrow>
     dryRun s' = dryRun s \<and> googleCalIDs s' = googleCalIDs s \<and>
     googleClients s' = googleClients s \<and> icloudClient s' = icloudClient s \<and>
     primaryTimeZone s' = primaryTimeZone s \<and> logger s' = logger s"
proof (induction evs arbitrary: s tr)
  case Nil
  then show ?case by simp
next
  case (Cons e es)
  obtain r1 e1 s1 tr1 where step: "syncEvent env s tr e = (r1, e1, s1, tr1)"
    by (cases "syncEvent env s tr e") auto
  note fr = syncEvent_frame [OF step]
  show ?case
  proof (cases r1)
    case (Panic msg)
    with Cons.prems step fr show ?thesis by simp
  next
    case (Return err)
    from syncEvents_Cons [OF step [unfolded Return], of es] Cons.prems
    obtain lg where "syncEvents env s1 (tr1 @ lg) es = (r, s', tr')" by auto
    from Cons.IH [OF this] fr show ?thesis by simp
  qed
qed

lemma syncEvents_keeps:
  "syncEvents env s tr evs = (r, s', tr') \<Longrightarrow> state_has (state s) k \<Longrightarrow>
     state_get (state s') k = state_get (state s) k"
proof (induction evs arbitrary: s tr)
  case Nil
  then show ?case by simp
next
  case (Cons e es)
  obtain r1 e1 s1 tr1 where step: "syncEvent env s tr e = (r1, e1, s1, tr1)"
    by (cases "syncEvent env s tr e") auto
  have k1: "state_get (state s1) k = state_get (state s) k"
    using syncEvent_keeps [OF step Cons.prems(2)] .
  have h1: "state_has (state s1) k"
    using syncEvent_mono [OF step Cons.prems(2)] .
  show ?case
  proof (cases r1)
    case (Panic msg)
    with Cons.prems step k1 show ?thesis by simp
  next
    case (Return err)
    from syncEvents_Cons [OF step [unfolded Return], of es] Cons.prems
    obtain lg where "syncEvents env s1 (tr1 @ lg) es = (r, s', tr')" by auto
    from Cons.IH [OF this h1] k1 show ?thesis by simp
  qed
qed

lemma syncEvents_mono:
  assumes "syncEvents env s tr evs = (r, s', tr')" "state_has (state s) k"
  shows "state_has (state s') k"
  using syncEvents_keeps [OF assms] assms(2) by (simp add: state_has_def)

lemma syncEvents_ext:
  "syncEvents env s tr evs = (r, s', tr') \<Longrightarrow>
     \<exists>ext. tr' = tr @ ext \<and> writes ext = [] \<and> fetched ext = [] \<and> queried ext = [] \<and>
       (\<forall>c \<in> set (creates ext). \<not> state_has (state s) (ID c) \<and> ID c \<in> ID ` set evs)"
proof (induction evs arbitrary: s tr)
  case Nil
  then show ?case by simp
next
  case (Cons e es)
  obtain r1 e1 s1 tr1 where step: "syncEvent env s tr e = (r1, e1, s1, tr1)"
    by (cases "syncEvent env s tr e") auto
  from syncEvent_ext [OF step] obtain x1 where
    x1: "tr1 = tr @ x1" "writes x1 = []" "fetched x1 = []" "queried x1 = []"
        "\<forall>c \<in> set (creates x1). ID c = ID e \<and> \<not> state_has (state s) (ID e)"
    by blast
  have mono: "\<not> state_has (state s1) k \<Longrightarrow> \<not> state_has (state s) k" for k
    using syncEvent_mono [OF step, of k] by blast
  show ?case
  proof (cases r1)
    case (Panic msg)
    with Cons.prems step have "tr' = tr @ x1" using x1 by simp
    with x1 show ?thesis by auto
  next
    case (Return err)
    from syncEvents_Cons [OF step [unfolded Return], of es] Cons.prems
    obtain lg where rest: "syncEvents env s1 (tr1 @ lg) es = (r, s', tr')"
      and lg0: "creates lg = []" "writes lg = []" "fetched lg = []" "queried lg = []"
      by auto
    from Cons.IH [OF rest] obtain x2 where
      x2: "tr' = (tr1 @ lg) @ x2" "writes x2 = []" "fetched x2 = []" "queried x2 = []"
          "\<forall>c \<in> set (creates x2). \<not> state_has (state s1) (ID c) \<and> ID c \<in> ID ` set es"
      by blast
    have "tr' = tr @ (x1 @ lg @ x2)" using x1 x2 by simp
    moreover have "writes (x1 @ lg @ x2) = []" "fetched (x1 @ lg @ x2) = []"
        "queried (x1 @ lg @ x2) = []"
      using x1 x2 lg0 by (simp_all add: trace_append)
    moreover have "\<forall>c \<in> set (creates (x1 @ lg @ x2)).
        \<not> state_has (state s) (ID c) \<and> ID c \<in> ID ` set (e # es)"
      using x1 x2 lg0 mono by (auto simp: creates_append)
    ultimately show ?thesis by blast
  qed
qed

lemma syncEvents_dry:
  "dryRun s \<Longrightarrow> syncEvents env s tr evs = (r, s', tr') \<Longrightarrow>
     s' = s \<and> r = Return () \<and> creates (since tr tr') = []"
proof (induction evs arbitrary: tr)
  case Nil
  then show ?case by (simp add: since_def)
next
  case (Cons e es)
  obtain r1 e1 s1 tr1 where step: "syncEvent env s tr e = (r1, e1, s1, tr1)"
    by (cases "syncEvent env s tr e") auto
  from syncEvent_dry [OF Cons.prems(1) step]
  have d: "s1 = s" "r1 = Return None" "creates (since tr tr1) = []" by simp_all
  from syncEvent_ext [OF step] obtain x1 where x1: "tr1 = tr @ x1" by blast
  from Cons.prems(2) step d have rest: "syncEvents env s tr1 es = (r, s', tr')" by simp
  from Cons.IH [OF Cons.prems(1) rest]
  have i: "s' = s" "r = Return ()" "creates (since tr1 tr') = []" by simp_all
  from syncEvents_ext [OF rest] obtain x2 where x2: "tr' = tr1 @ x2" by blast
  from d(3) i(3) x1 x2 have "creates (since tr tr') = []"
    by (simp add: since_def creates_append)
  with i show ?case by simp
qed

subsection \<open>Fetching\<close>

lemma fetchCalendars_ext:
  "fetchCalendars env c tr acc ids = (evs, tr') \<Longrightarrow>
     \<exists>ext. tr' = tr @ ext \<and> creates ext = [] \<and> writes ext = [] \<and>
       evs = acc @ fetched ext \<and> queried ext = map (Pair c) ids"
proof (induction ids arbitrary: tr acc)
  case Nil
  then show ?case by simp
next
  case (Cons calID rest)
  define r where "r = google_GetUpcomingEvents env tr c calID 7"
  show ?case
  proof (cases r)
    case (Inl err)
    with Cons.prems have
      "fetchCalendars env c
         ((tr @ [GetUpcomingEvents c calID 7 r]) @
          [Log Error ''Could not fetch events for a google calendar'']) acc rest = (evs, tr')"
      by (simp add: r_def Let_def)
    from Cons.IH [OF this] obtain x where
      x: "tr' = ((tr @ [GetUpcomingEvents c calID 7 r]) @
                 [Log Error ''Could not fetch events for a google calendar'']) @ x"
         "creates x = []" "writes x = []" "evs = acc @ fetched x"
         "queried x = map (Pair c) rest"
      by blast
    let ?ext = "[GetUpcomingEvents c calID 7 r,
                 Log Error ''Could not fetch events for a google calendar''] @ x"
    have "tr' = tr @ ?ext" using x(1) by simp
    moreover have "creates ?ext = []" "writes ?ext = []" using x by simp_all
    moreover have "evs = acc @ fetched ?ext" using x Inl by simp
    moreover have "queried ?ext = map (Pair c) (calID # rest)" using x by simp
    ultimately show ?thesis by blast
  next
    case (Inr events)
    with Cons.prems have
      "fetchCalendars env c (tr @ [GetUpcomingEvents c calID 7 r]) (acc @ events) rest = (evs, tr')"
      by (simp add: r_def Let_def)
    from Cons.IH [OF this] obtain x where
      x: "tr' = (tr @ [GetUpcomingEvents c calID 7 r]) @ x"
         "creates x = []" "writes x = []" "evs = (acc @ events) @ fetched x"
         "queried x = map (Pair c) rest"
      by blast
    let ?ext = "[GetUpcomingEvents c calID 7 r] @ x"
    have "tr' = tr @ ?ext" using x(1) by simp
    moreover have "creates ?ext = []" "writes ?ext = []" using x by simp_all
    moreover have "evs = acc @ fetched ?ext" using x Inr by simp
    moreover have "queried ?ext = map (Pair c) (calID # rest)" using x by simp
    ultimately show ?thesis by blast
  qed
qed

lemma fetchClients_ext:
  "fetchClients env ids tr acc clients = (evs, tr') \<Longrightarrow>
     \<exists>ext. tr' = tr @ ext \<and> creates ext = [] \<and> writes ext = [] \<and>
       evs = acc @ fetched ext \<and> queried ext = List.product clients ids"
proof (induction clients arbitrary: tr acc)
  case Nil
  then show ?case by simp
next
  case (Cons c rest)
  obtain evs1 tr1 where one: "fetchCalendars env c tr acc ids = (evs1, tr1)"
    by (cases "fetchCalendars env c tr acc ids") auto
  from fetchCalendars_ext [OF one] obtain x1 where
    x1: "tr1 = tr @ x1" "creates x1 = []" "writes x1 = []" "evs1 = acc @ fetched x1"
        "queried x1 = map (Pair c) ids"
    by blast
  from Cons.prems one have "fetchClients env ids tr1 evs1 rest = (evs, tr')" by simp
  from Cons.IH [OF this] obtain x2 where
    x2: "tr' = tr1 @ x2" "creates x2 = []" "writes x2 = []" "evs = evs1 @ fetched x2"
        "queried x2 = List.product rest ids"
    by blast
  have "tr' = tr @ (x1 @ x2)" using x1 x2 by simp
  moreover have "creates (x1 @ x2) = []" "writes (x1 @ x2) = []"
    using x1 x2 by (simp_all add: trace_append)
  moreover have "evs = acc @ fetched (x1 @ x2)" using x1 x2 by (simp add: fetched_append)
  moreover have "queried (x1 @ x2) = List.product (c # rest) ids"
    using x1 x2 by (simp add: queried_append)
  ultimately show ?case by blast
qed

lemma fetchAll_empty:
  "googleCalIDs s = [] \<Longrightarrow>
     fetchAllGoogleEvents env s tr = (Panic ''index out of range [0] with length 0'', tr)"
  by (simp add: fetchAllGoogleEvents_def)

lemma fetchAll_ext:
  assumes "googleCalIDs s = ids0 # others" "fetchAllGoogleEvents env s tr = (r, tr')"
  shows "\<exists>ext. r = Return (fetched ext, None) \<and> tr' = tr @ ext \<and> creates ext = [] \<and>
           writes ext = [] \<and>
           queried ext = List.product (googleClients s) (strings_Split ids0 (CHR '',''))"
proof -
  obtain evs tr1 where
    f: "fetchClients env (strings_Split ids0 (CHR '','')) tr [] (googleClients s) = (evs, tr1)"
    by (cases "fetchClients env (strings_Split ids0 (CHR '','')) tr [] (googleClients s)") auto
  from fetchClients_ext [OF f] obtain x where
    x: "tr1 = tr @ x" "creates x = []" "writes x = []" "evs = [] @ fetched x"
       "queried x = List.product (googleClients s) (strings_Split ids0 (CHR '',''))"
    by blast
  from assms f have "r = Return (evs, None)" "tr' = tr1"
    by (simp_all add: fetchAllGoogleEvents_def)
  with x show ?thesis by simp
qed

subsection \<open>The cycle\<close>

lemma save_ext:
  "\<exists>ext. (if \<not> dryRun s
           then (case saveState env s tr of
                   (Some err, tr') \<Rightarrow> tr' @ [Log Error ''Failed to save sync state'']
                 | (None, tr') \<Rightarrow> tr')
           else tr) = tr @ ext \<and>
         creates ext = [] \<and> fetched ext = [] \<and> queried ext = [] \<and> (dryRun s \<longrightarrow> ext = [])"
  by (auto simp: saveState_def Let_def split: sum.splits option.splits)

text \<open>
  The shape of a cycle: either the calendar id list is empty and the cycle panics at once,
  or the fetch \<open>xf\<close> is followed by the event loop over what was fetched and, when the
  loop returns, by the save step \<open>xs\<close>.
\<close>

lemma Sync_decomp:
  assumes "Sync env s tr = (r, s', tr')"
  shows "(googleCalIDs s = [] \<and> r = Panic ''index out of range [0] with length 0'' \<and>
            s' = s \<and> tr' = tr @ [Log Info ''Starting sync cycle.'']) \<or>
         (\<exists>ids0 others xf rs tr2 xs.
            googleCalIDs s = ids0 # others \<and>
            creates xf = [] \<and> writes xf = [] \<and>
            queried xf = List.product (googleClients s) (strings_Split ids0 (CHR '','')) \<and>
            syncEvents env s
              (tr @ [Log Info ''Starting sync cycle.''] @ xf @ [Log Info ''Fetched all Google events.''])
              (fetched xf) = (rs, s', tr2) \<and>
            creates xs = [] \<and> fetched xs = [] \<and> queried xs = [] \<and> (dryRun s' \<longrightarrow> xs = []) \<and>
            (case rs of
               Panic msg \<Rightarrow> r = Panic msg \<and> tr' = tr2
             | Return u \<Rightarrow> r = Return None \<and> tr' = tr2 @ xs @ [Log Info ''Sync cycle finished.'']))"
proof (cases "googleCalIDs s")
  case Nil
  with assms fetchAll_empty [OF Nil, of env "tr @ [Log Info ''Starting sync cycle.'']"]
  show ?thesis by (simp add: Sync_def)
next
  case (Cons ids0 others)
  obtain rf tr1 where
    f: "fetchAllGoogleEvents env s (tr @ [Log Info ''Starting sync cycle.'']) = (rf, tr1)"
    by (cases "fetchAllGoogleEvents env s (tr @ [Log Info ''Starting sync cycle.''])") auto
  from fetchAll_ext [OF Cons f] obtain xf where
    xf: "rf = Return (fetched xf, None)" "tr1 = (tr @ [Log Info ''Starting sync cycle.'']) @ xf"
        "creates xf = []" "writes xf = []"
        "queried xf = List.product (googleClients s) (strings_Split ids0 (CHR '',''))"
    by blast
  obtain rs s1 tr2 where
    e: "syncEvents env s (tr1 @ [Log Info ''Fetched all Google events.'']) (fetched xf) = (rs, s1, tr2)"
    by (cases "syncEvents env s (tr1 @ [Log Info ''Fetched all Google events.'']) (fetched xf)") auto
  from save_ext [of s1 env tr2] obtain xs where
    xs: "(if \<not> dryRun s1
           then (case saveState env s1 tr2 of
                   (Some err, tr') \<Rightarrow> tr' @ [Log Error ''Failed to save sync state'']
                 | (None, tr') \<Rightarrow> tr')
           else tr2) = tr2 @ xs"
        "creates xs = []" "fetched xs = []" "queried xs = []" "dryRun s1 \<longrightarrow> xs = []"
    by blast
  have "s' = s1 \<and> (case rs of
               Panic msg \<Rightarrow> r = Panic msg \<and> tr' = tr2
             | Return u \<Rightarrow> r = Return None \<and> tr' = tr2 @ xs @ [Log Info ''Sync cycle finished.''])"
  proof (cases rs)
    case (Panic msg)
    with assms f xf(1) e show ?thesis by (simp add: Sync_def)
  next
    case (Return u)
    with assms f xf(1) e have "s' = s1" "r = Return None"
      "tr' = (if \<not> dryRun s1
           then (case saveState env s1 tr2 of
                   (Some err, tr') \<Rightarrow> tr' @ [Log Error ''Failed to save sync state'']
                 | (None, tr') \<Rightarrow> tr')
           else tr2) @ [Log Info ''Sync cycle finished.'']"
      by (auto simp: Sync_def Let_def)
    with xs(1) Return show ?thesis by simp
  qed
  with Cons xf e xs show ?thesis by auto
qed

text \<open>Every create of a cycle is for an event that was fetched and not yet in the state.\<close>

lemma Sync_creates:
  assumes "Sync env s tr = (r, s', tr')"
  shows "\<exists>ext. tr' = tr @ ext \<and>
           (\<forall>c \<in> set (creates ext). \<not> state_has (state s) (ID c) \<and> ID c \<in> ID ` set (fetched ext))"
  using Sync_decomp [OF assms]
proof (elim disjE exE conjE)
  assume "tr' = tr @ [Log Info ''Starting sync cycle.'']"
  then show ?thesis by simp
next
  fix ids0 others xf rs tr2 xs
  assume xf: "creates xf = []"
    and loop: "syncEvents env s
          (tr @ [Log Info ''Starting sync cycle.''] @ xf @ [Log Info ''Fetched all Google events.''])
          (fetched xf) = (rs, s', tr2)"
    and xs: "creates xs = []" "fetched xs = []"
    and fin: "case rs of Panic msg \<Rightarrow> r = Panic msg \<and> tr' = tr2
              | Return u \<Rightarrow> r = Return None \<and> tr' = tr2 @ xs @ [Log Info ''Sync cycle finished.'']"
  from syncEvents_ext [OF loop] obtain xe where
    xe: "tr2 = (tr @ [Log Info ''Starting sync cycle.''] @ xf @
                [Log Info ''Fetched all Google events.'']) @ xe"
        "fetched xe = []"
        "\<forall>c \<in> set (creates xe). \<not> state_has (state s) (ID c) \<and> ID c \<in> ID ` set (fetched xf)"
    by blast
  show ?thesis
  proof (cases rs)
    case (Panic msg)
    with fin xe(1) have
      "tr' = tr @ ([Log Info ''Starting sync cycle.''] @ xf @
                   [Log Info ''Fetched all Google events.''] @ xe)" by simp
    moreover have "\<forall>c \<in> set (creates ([Log Info ''Starting sync cycle.''] @ xf @
                   [Log Info ''Fetched all Google events.''] @ xe)).
        \<not> state_has (state s) (ID c) \<and>
        ID c \<in> ID ` set (fetched ([Log Info ''Starting sync cycle.''] @ xf @
                   [Log Info ''Fetched all Google events.''] @ xe))"
      using xf xe by (simp add: trace_append)
    ultimately show ?thesis by blast
  next
    case (Return u)
    with fin xe(1) have
      "tr' = tr @ ([Log Info ''Starting sync cycle.''] @ xf @
                   [Log Info ''Fetched all Google events.''] @ xe @ xs @
                   [Log Info ''Sync cycle finished.''])" by simp
    moreover have "\<forall>c \<in> set (creates ([Log Info ''Starting sync cycle.''] @ xf @
                   [Log Info ''Fetched all Google events.''] @ xe @ xs @
                   [Log Info ''Sync cycle finished.''])).
        \<not> state_has (state s) (ID c) \<and>
        ID c \<in> ID ` set (fetched ([Log Info ''Starting sync cycle.''] @ xf @
                   [Log Info ''Fetched all Google events.''] @ xe @ xs @
                   [Log Info ''Sync cycle finished.'']))"
      using xf xe xs by (simp add: trace_append)
    ultimately show ?thesis by blast
  qed
qed

lemma Sync_keeps:
  assumes "Sync env s tr = (r, s', tr')" "state_has (state s) k"
  shows "state_get (state s') k = state_get (state s) k"
  using Sync_decomp [OF assms(1)] syncEvents_keeps [OF _ assms(2)] by auto

text \<open>A dry run changes nothing and reaches neither the destination nor the state file.\<close>

lemma Sync_dry:
  assumes "dryRun s" and run: "Sync env s tr = (r, s', tr')"
  shows "s' = s \<and> writes (since tr tr') = [] \<and> creates (since tr tr') = []"
  using Sync_decomp [OF run]
proof (elim disjE exE conjE)
  assume "s' = s" "tr' = tr @ [Log Info ''Starting sync cycle.'']"
  then show ?thesis by (simp add: since_append)
next
  fix ids0 others xf rs tr2 xs
  assume xf: "creates xf = []" "writes xf = []"
    and loop: "syncEvents env s
        (tr @ [Log Info ''Starting sync cycle.''] @ xf @ [Log Info ''Fetched all Google events.''])
        (fetched xf) = (rs, s', tr2)"
    and xs: "dryRun s' \<longrightarrow> xs = []"
    and fin: "case rs of Panic msg \<Rightarrow> r = Panic msg \<and> tr' = tr2
            | Return u \<Rightarrow> r = Return None \<and> tr' = tr2 @ xs @ [Log Info ''Sync cycle finished.'']"
  from syncEvents_dry [OF assms(1) loop]
  have d: "s' = s" "rs = Return ()"
    "creates (since (tr @ [Log Info ''Starting sync cycle.''] @ xf @
                     [Log Info ''Fetched all Google events.'']) tr2) = []"
    by simp_all
  from syncEvents_ext [OF loop] obtain xe where
    xe: "tr2 = (tr @ [Log Info ''Starting sync cycle.''] @ xf @
                [Log Info ''Fetched all Google events.'']) @ xe" "writes xe = []"
    by blast
  from d(3) [unfolded xe(1) since_append] have ce: "creates xe = []" .
  from xs d(1) assms(1) have "xs = []" by simp
  with fin d(2) xe(1) have
    "tr' = tr @ ([Log Info ''Starting sync cycle.''] @ xf @
                 [Log Info ''Fetched all Google events.''] @ xe @
                 [Log Info ''Sync cycle finished.''])" by simp
  then have "since tr tr' = [Log Info ''Starting sync cycle.''] @ xf @
                 [Log Info ''Fetched all Google events.''] @ xe @
                 [Log Info ''Sync cycle finished.'']"
    by (simp only: since_append)
  with xf xe(2) ce d(1) show ?thesis by (simp add: trace_append)
qed

subsection \<open>When the loop cannot panic\<close>

lemma syncEvent_no_panic:
  assumes "state s \<noteq> None \<or> dryRun s" "syncEvent env s tr event = (r, event', s', tr')"
  shows "\<not> is_Panic r \<and> (state s' \<noteq> None \<or> dryRun s')"
  using assms
  by (auto simp: syncEvent_def Let_def split: if_splits option.splits)

lemma syncEvents_no_panic:
  "state s \<noteq> None \<or> dryRun s \<Longrightarrow> syncEvents env s tr evs = (r, s', tr') \<Longrightarrow> r = Return ()"
proof (induction evs arbitrary: s tr)
  case Nil
  then show ?case by simp
next
  case (Cons e es)
  obtain r1 e1 s1 tr1 where step: "syncEvent env s tr e = (r1, e1, s1, tr1)"
    by (cases "syncEvent env s tr e") auto
  from syncEvent_no_panic [OF Cons.prems(1) step]
  have np: "\<not> is_Panic r1" "state s1 \<noteq> None \<or> dryRun s1" by simp_all
  then obtain err where ret: "r1 = Return err" by (cases r1) auto
  from syncEvents_Cons [OF step [unfolded ret], of es] Cons.prems(2)
  obtain lg where "syncEvents env s1 (tr1 @ lg) es = (r, s', tr')" by auto
  from Cons.IH [OF np(2) this] show ?case .
qed

subsection \<open>Every new event reaches the destination\<close>

lemma failed_creates_Nil: "creates tr = [] \<Longrightarrow> failed_creates tr = []"
  using failed_subset_creates [of tr] by simp

lemma syncEvent_attempt:
  assumes "\<not> dryRun s" "syncEvent env s tr e = (Return err, e', s', tr')"
  shows "(state_has (state s) (ID e) \<or> ID e \<in> ID ` set (creates (since tr tr')))
         \<and> (state_has (state s') (ID e) \<or> ID e \<in> ID ` set (failed_creates (since tr tr')))"
  using assms
  by (auto simp: syncEvent_def Let_def since_def state_has_def time_In_def
           split: if_splits option.splits)

lemma syncEvent_new_key:
  assumes "syncEvent env s tr e = (r, e', s', tr')" "state_has (state s') k"
    "\<not> state_has (state s) k"
  shows "k \<in> ID ` set (creates (since tr tr'))"
  using assms
  by (auto simp: syncEvent_def Let_def since_def state_has_def time_In_def
           split: if_splits option.splits)

lemma syncEvents_attempt:
  "syncEvents env s tr evs = (Return u, s', tr') \<Longrightarrow> \<not> dryRun s \<Longrightarrow>
     \<forall>e \<in> set evs.
       (state_has (state s) (ID e) \<or> ID e \<in> ID ` set (creates (since tr tr')))
       \<and> (state_has (state s') (ID e) \<or> ID e \<in> ID ` set (failed_creates (since tr tr')))"
proof (induction evs arbitrary: s tr)
  case Nil
  then show ?case by simp
next
  case (Cons e es)
  obtain r1 e1 s1 tr1 where step: "syncEvent env s tr e = (r1, e1, s1, tr1)"
    by (cases "syncEvent env s tr e") auto
  from syncEvent_frame [OF step] Cons.prems(2) have nd: "\<not> dryRun s1" by simp
  from Cons.prems(1) step obtain err where ret: "r1 = Return err" by (cases r1) auto
  from syncEvents_Cons [OF step [unfolded ret], of es] Cons.prems(1)
  obtain lg where rest: "syncEvents env s1 (tr1 @ lg) es = (Return u, s', tr')"
    and lg0: "creates lg = []" "failed_creates lg = []"
    by auto
  from syncEvent_ext [OF step] obtain x1 where x1: "tr1 = tr @ x1" by blast
  from syncEvents_ext [OF rest] obtain x2 where x2: "tr' = (tr1 @ lg) @ x2" by blast
  have s1: "since tr tr1 = x1" using x1 by (simp add: since_append)
  have s2: "since (tr1 @ lg) tr' = x2" using x2 by (simp only: since_append)
  have s3: "since tr tr' = x1 @ lg @ x2"
  proof -
    have "tr' = tr @ (x1 @ lg @ x2)" using x1 x2 by simp
    then show ?thesis by (simp only: since_append)
  qed
  note hd = syncEvent_attempt [OF Cons.prems(2) step [unfolded ret], unfolded s1]
  note tl = Cons.IH [OF rest nd, unfolded s2]
  show ?case
  proof
    fix a assume a: "a \<in> set (e # es)"
    show "(state_has (state s) (ID a) \<or> ID a \<in> ID ` set (creates (since tr tr')))
       \<and> (state_has (state s') (ID a) \<or> ID a \<in> ID ` set (failed_creates (since tr tr')))"
    proof (cases "a = e")
      case True
      have "state_has (state s') (ID e) \<or> ID e \<in> ID ` set (failed_creates x1)"
        using hd syncEvents_mono [OF rest, of "ID e"] by blast
      with hd True show ?thesis unfolding s3 by (auto simp: trace_append)
    next
      case False
      with a have in_es: "a \<in> set es" by simp
      have first: "state_has (state s) (ID a) \<or> ID a \<in> ID ` set (creates (x1 @ lg @ x2))"
      proof (cases "state_has (state s1) (ID a)")
        case True
        show ?thesis
        proof (cases "state_has (state s) (ID a)")
          case True
          then show ?thesis by simp
        next
          case False
          from syncEvent_new_key [OF step \<open>state_has (state s1) (ID a)\<close> False]
          show ?thesis unfolding s1 by (auto simp: trace_append)
        qed
      next
        case False
        with tl in_es have "ID a \<in> ID ` set (creates x2)" by blast
        then show ?thesis by (auto simp: trace_append)
      qed
      have second: "state_has (state s') (ID a) \<or> ID a \<in> ID ` set (failed_creates (x1 @ lg @ x2))"
        using tl in_es by (auto simp: trace_append)
      from first second show ?thesis unfolding s3 by simp
    qed
  qed
qed

lemma sync_returns_nil:
  assumes "googleCalIDs s \<noteq> []" "state s \<noteq> None \<or> dryRun s"
  shows "fst (Sync env s tr) = Return None"
proof -
  obtain r s' tr' where run: "Sync env s tr = (r, s', tr')"
    by (cases "Sync env s tr") auto
  from Sync_decomp [OF run] assms(1) obtain xf rs tr2 xs where
    loop: "syncEvents env s
          (tr @ [Log Info ''Starting sync cycle.''] @ xf @ [Log Info ''Fetched all Google events.''])
          (fetched xf) = (rs, s', tr2)"
    and fin: "case rs of Panic msg \<Rightarrow> r = Panic msg \<and> tr' = tr2
              | Return u \<Rightarrow> r = Return None \<and> tr' = tr2 @ xs @ [Log Info ''Sync cycle finished.'']"
    by auto
  from syncEvents_no_panic [OF assms(2) loop] have "rs = Return ()" .
  with fin run show ?thesis by simp
qed

text \<open>A cycle that returns: what it appended to the trace, piece by piece.\<close>

lemma Sync_returns:
  assumes run: "Sync env s tr = (Return x, s', tr')"
  obtains ids0 others xf xe xs where
    "googleCalIDs s = ids0 # others" "x = None"
    "creates xf = []"
    "queried xf = List.product (googleClients s) (strings_Split ids0 (CHR '',''))"
    "syncEvents env s
       (tr @ [Log Info ''Starting sync cycle.''] @ xf @ [Log Info ''Fetched all Google events.''])
       (fetched xf) =
     (Return (), s',
      (tr @ [Log Info ''Starting sync cycle.''] @ xf @ [Log Info ''Fetched all Google events.'']) @ xe)"
    "fetched xe = []" "queried xe = []"
    "creates xs = []" "fetched xs = []" "queried xs = []"
    "since tr tr' = [Log Info ''Starting sync cycle.''] @ xf @
        [Log Info ''Fetched all Google events.''] @ xe @ xs @ [Log Info ''Sync cycle finished.'']"
  using Sync_decomp [OF run]
proof (elim disjE exE conjE)
  assume "Return x = Panic ''index out of range [0] with length 0''"
  then show ?thesis by simp
next
  fix ids0 others xf tr2 xs and rs :: "unit outcome"
  assume ids: "googleCalIDs s = ids0 # others"
    and xf: "creates xf = []"
      "queried xf = List.product (googleClients s) (strings_Split ids0 (CHR '',''))"
    and loop: "syncEvents env s
          (tr @ [Log Info ''Starting sync cycle.''] @ xf @ [Log Info ''Fetched all Google events.''])
          (fetched xf) = (rs, s', tr2)"
    and xs: "creates xs = []" "fetched xs = []" "queried xs = []"
    and fin: "case rs of Panic msg \<Rightarrow> Return x = Panic msg \<and> tr' = tr2
              | Return u \<Rightarrow> Return x = Return None \<and>
                  tr' = tr2 @ xs @ [Log Info ''Sync cycle finished.'']"
  from fin have rs: "rs = Return ()" and x: "x = None"
    and tr': "tr' = tr2 @ xs @ [Log Info ''Sync cycle finished.'']"
    by (cases rs; simp)+
  from syncEvents_ext [OF loop] obtain xe where
    xe: "tr2 = (tr @ [Log Info ''Starting sync cycle.''] @ xf @
                [Log Info ''Fetched all Google events.'']) @ xe"
        "fetched xe = []" "queried xe = []"
    by blast
  have "tr' = tr @ ([Log Info ''Starting sync cycle.''] @ xf @
        [Log Info ''Fetched all Google events.''] @ xe @ xs @ [Log Info ''Sync cycle finished.''])"
    using tr' xe(1) by simp
  then have st: "since tr tr' = [Log Info ''Starting sync cycle.''] @ xf @
        [Log Info ''Fetched all Google events.''] @ xe @ xs @ [Log Info ''Sync cycle finished.'']"
    by (simp only: since_append)
  show ?thesis
    by (rule that [OF ids x xf loop [unfolded rs xe(1)] xe(2,3) xs st])
qed

subsection \<open>The trace records what the environment answered\<close>

lemma consistent_append:
  "consistent env pre (a @ b) = (consistent env pre a \<and> consistent env (pre @ a) b)"
  by (induction a arbitrary: pre) simp_all

lemma syncEvent_consistent:
  assumes "syncEvent env s tr event = (r, event', s', tr')"
  shows "\<exists>ext. tr' = tr @ ext \<and> consistent env tr ext"
  using assms
  by (auto simp: syncEvent_def Let_def split: if_splits option.splits)

lemma syncEvents_consistent:
  "syncEvents env s tr evs = (r, s', tr') \<Longrightarrow> \<exists>ext. tr' = tr @ ext \<and> consistent env tr ext"
proof (induction evs arbitrary: s tr)
  case Nil
  then show ?case by simp
next
  case (Cons e es)
  obtain r1 e1 s1 tr1 where step: "syncEvent env s tr e = (r1, e1, s1, tr1)"
    by (cases "syncEvent env s tr e") auto
  from syncEvent_consistent [OF step] obtain x1 where
    x1: "tr1 = tr @ x1" "consistent env tr x1" by blast
  show ?case
  proof (cases r1)
    case (Panic msg)
    with Cons.prems step have "tr' = tr1" by simp
    with x1 show ?thesis by blast
  next
    case (Return err)
    define lg where "lg = (case err of None \<Rightarrow> [] | Some x \<Rightarrow> [Log Error ''Failed to sync event''])"
    have rest: "syncEvents env s1 (tr1 @ lg) es = (r, s', tr')"
      using Cons.prems step Return by (cases err) (simp_all add: lg_def)
    have lgc: "consistent env tr1 lg" by (cases err) (simp_all add: lg_def)
    from Cons.IH [OF rest] obtain x2 where
      x2: "tr' = (tr1 @ lg) @ x2" "consistent env (tr1 @ lg) x2" by blast
    have "tr' = tr @ (x1 @ lg @ x2)" using x1(1) x2(1) by simp
    moreover have "consistent env tr (x1 @ lg @ x2)"
      using x1 x2(2) lgc by (simp add: consistent_append)
    ultimately show ?thesis by blast
  qed
qed

lemma fetchCalendars_consistent:
  "fetchCalendars env c tr acc ids = (evs, tr') \<Longrightarrow>
     \<exists>ext. tr' = tr @ ext \<and> consistent env tr ext"
proof (induction ids arbitrary: tr acc)
  case Nil
  then show ?case by simp
next
  case (Cons calID rest)
  define r where "r = google_GetUpcomingEvents env tr c calID 7"
  define lg where "lg = (case r of Inl err \<Rightarrow> [Log Error ''Could not fetch events for a google calendar'']
                         | Inr events \<Rightarrow> [])"
  define acc1 where "acc1 = (case r of Inl err \<Rightarrow> acc | Inr events \<Rightarrow> acc @ events)"
  have "fetchCalendars env c ((tr @ [GetUpcomingEvents c calID 7 r]) @ lg) acc1 rest = (evs, tr')"
    using Cons.prems by (cases r) (simp_all add: r_def [symmetric] lg_def acc1_def Let_def)
  from Cons.IH [OF this] obtain x where
    x: "tr' = ((tr @ [GetUpcomingEvents c calID 7 r]) @ lg) @ x"
       "consistent env ((tr @ [GetUpcomingEvents c calID 7 r]) @ lg) x"
    by blast
  have lgc: "consistent env (tr @ [GetUpcomingEvents c calID 7 r]) lg"
    by (cases r) (simp_all add: lg_def)
  have "tr' = tr @ ([GetUpcomingEvents c calID 7 r] @ lg @ x)" using x(1) by simp
  moreover have "consistent env tr ([GetUpcomingEvents c calID 7 r] @ lg @ x)"
    using x(2) lgc by (simp add: consistent_append r_def)
  ultimately show ?case by blast
qed

lemma fetchClients_consistent:
  "fetchClients env ids tr acc clients = (evs, tr') \<Longrightarrow>
     \<exists>ext. tr' = tr @ ext \<and> consistent env tr ext"
proof (induction clients arbitrary: tr acc)
  case Nil
  then show ?case by simp
next
  case (Cons c rest)
  obtain evs1 tr1 where one: "fetchCalendars env c tr acc ids = (evs1, tr1)"
    by (cases "fetchCalendars env c tr acc ids") auto
  from fetchCalendars_consistent [OF one] obtain x1 where
    x1: "tr1 = tr @ x1" "consistent env tr x1" by blast
  from Cons.prems one have "fetchClients env ids tr1 evs1 rest = (evs, tr')" by simp
  from Cons.IH [OF this] obtain x2 where
    x2: "tr' = tr1 @ x2" "consistent env tr1 x2" by blast
  have "tr' = tr @ (x1 @ x2)" using x1(1) x2(1) by simp
  moreover have "consistent env tr (x1 @ x2)" using x1 x2(2) by (simp add: consistent_append)
  ultimately show ?case by blast
qed

lemma fetchAll_consistent:
  assumes "fetchAllGoogleEvents env s tr = (r, tr')"
  shows "\<exists>ext. tr' = tr @ ext \<and> consistent env tr ext"
proof (cases "googleCalIDs s")
  case Nil
  with assms have "tr' = tr @ []" by (simp add: fetchAllGoogleEvents_def)
  then show ?thesis by (intro exI [of _ "[]"]) simp
next
  case (Cons ids0 others)
  obtain evs tr1 where
    f: "fetchClients env (strings_Split ids0 (CHR '','')) tr [] (googleClients s) = (evs, tr1)"
    by (cases "fetchClients env (strings_Split ids0 (CHR '','')) tr [] (googleClients s)") auto
  from assms Cons f have "tr' = tr1" by (simp add: fetchAllGoogleEvents_def)
  with fetchClients_consistent [OF f] show ?thesis by simp
qed

lemma saveState_consistent:
  assumes "saveState env s tr = (r, tr')"
  shows "\<exists>ext. tr' = tr @ ext \<and> consistent env tr ext"
proof (cases "json_MarshalIndent env (state s)")
  case (Inl err)
  with assms have "tr' = tr @ []" by (simp add: saveState_def)
  then show ?thesis by (intro exI [of _ "[]"]) simp
next
  case (Inr data)
  with assms have "tr' = tr @ [WriteFile stateFile data (os_WriteFile env tr stateFile data)]"
    by (auto simp: saveState_def Let_def)
  then show ?thesis by simp
qed

lemma Sync_consistent:
  assumes run: "Sync env s tr = (r, s', tr')"
  shows "consistent env tr (since tr tr')"
proof -
  obtain rf tr1 where
    f: "fetchAllGoogleEvents env s (tr @ [Log Info ''Starting sync cycle.'']) = (rf, tr1)"
    by (cases "fetchAllGoogleEvents env s (tr @ [Log Info ''Starting sync cycle.''])") auto
  from fetchAll_consistent [OF f] obtain xf where
    xf: "tr1 = (tr @ [Log Info ''Starting sync cycle.'']) @ xf"
        "consistent env (tr @ [Log Info ''Starting sync cycle.'']) xf"
    by blast
  have start: "consistent env tr ([Log Info ''Starting sync cycle.''] @ xf)"
    using xf(2) by simp
  have "\<exists>ext. tr' = tr @ ext \<and> consistent env tr ext"
  proof (cases rf)
    case (Panic msg)
    with run f have "tr' = tr1" by (simp add: Sync_def)
    with xf(1) start show ?thesis by (intro exI [of _ "[Log Info ''Starting sync cycle.''] @ xf"]) simp
  next
    case (Return p)
    obtain evs ferr where p: "p = (evs, ferr)" by (cases p) auto
    show ?thesis
    proof (cases ferr)
      case (Some err)
      with run f Return p have "tr' = tr1" by (simp add: Sync_def)
      with xf(1) start show ?thesis
        by (intro exI [of _ "[Log Info ''Starting sync cycle.''] @ xf"]) simp
    next
      case None
      obtain rs s1 tr2 where
        e: "syncEvents env s (tr1 @ [Log Info ''Fetched all Google events.'']) evs = (rs, s1, tr2)"
        by (cases "syncEvents env s (tr1 @ [Log Info ''Fetched all Google events.'']) evs") auto
      from syncEvents_consistent [OF e] obtain xe where
        xe: "tr2 = (tr1 @ [Log Info ''Fetched all Google events.'']) @ xe"
            "consistent env (tr1 @ [Log Info ''Fetched all Google events.'']) xe"
        by blast
      have upto: "tr2 = tr @ ([Log Info ''Starting sync cycle.''] @ xf @
                     [Log Info ''Fetched all Google events.''] @ xe)"
        using xf(1) xe(1) by simp
      have uptoc: "consistent env tr ([Log Info ''Starting sync cycle.''] @ xf @
                     [Log Info ''Fetched all Google events.''] @ xe)"
        using xf xe(2) by (simp add: consistent_append)
      show ?thesis
      proof (cases rs)
        case (Panic msg)
        with run f Return p None e have "tr' = tr2" by (simp add: Sync_def)
        with upto uptoc show ?thesis by blast
      next
        case ret: (Return u)
        define xs where "xs =
          (if \<not> dryRun s1
           then (case saveState env s1 tr2 of
                   (Some err, tr') \<Rightarrow> since tr2 tr' @ [Log Error ''Failed to save sync state'']
                 | (None, tr') \<Rightarrow> since tr2 tr')
           else [])"
        obtain sr tr3 where sv: "saveState env s1 tr2 = (sr, tr3)"
          by (cases "saveState env s1 tr2") auto
        from saveState_consistent [OF sv] obtain x3 where
          x3: "tr3 = tr2 @ x3" "consistent env tr2 x3" by blast
        have xsc: "consistent env tr2 xs"
          using sv x3 by (cases sr; cases "dryRun s1") (simp_all add: xs_def since_append consistent_append)
        have "tr' = tr2 @ xs @ [Log Info ''Sync cycle finished.'']"
          using run f Return p None e ret sv x3(1)
          by (cases sr; cases "dryRun s1") (simp_all add: Sync_def Let_def xs_def since_append)
        then have "tr' = tr @ (([Log Info ''Starting sync cycle.''] @ xf @
                     [Log Info ''Fetched all Google events.''] @ xe) @ xs @
                     [Log Info ''Sync cycle finished.''])"
          using upto by simp
        moreover have "consistent env tr (([Log Info ''Starting sync cycle.''] @ xf @
                     [Log Info ''Fetched all Google events.''] @ xe) @ xs @
                     [Log Info ''Sync cycle finished.''])"
          using uptoc xsc upto by (simp only: consistent_append) simp
        ultimately show ?thesis by blast
      qed
    qed
  qed
  then show ?thesis by (auto simp: since_append)
qed

section \<open>The claims\<close>

text \<open>
  C1 (dedup). An event whose source identifier is a key of the state when it is processed
  is skipped: \<open>syncEvent\<close> returns success, the event, the syncer (so its state entry) are
  as before, and the only call added to the trace is a debug line, so the destination
  create is not invoked. Over a whole cycle: no create of the cycle carries an identifier
  that was a key when the cycle started, and that key's entry is what it was.
\<close>

theorem dedup_skips_known_event:
  assumes "state_has (state s) (ID event)"
  shows "syncEvent env s tr event =
           (Return None, event, s, tr @ [Log Debug ''Event already synced, skipping.''])
         \<and> creates (since tr (snd (snd (snd (syncEvent env s tr event))))) = []
         \<and> ID event \<notin> ID ` set (creates (since tr (snd (snd (Sync env s tr)))))
         \<and> state_get (state (fst (snd (Sync env s tr)))) (ID event) = state_get (state s) (ID event)"
proof -
  have one: "syncEvent env s tr event =
           (Return None, event, s, tr @ [Log Debug ''Event already synced, skipping.''])"
    using assms by (simp add: syncEvent_def)
  obtain r s' tr' where run: "Sync env s tr = (r, s', tr')"
    by (cases "Sync env s tr") auto
  from Sync_creates [OF run] obtain ext where
    ext: "tr' = tr @ ext" "\<forall>c \<in> set (creates ext). \<not> state_has (state s) (ID c)"
    by blast
  have "ID event \<notin> ID ` set (creates (since tr tr'))"
    using ext assms by (auto simp: since_append)
  moreover have "state_get (state s') (ID event) = state_get (state s) (ID event)"
    using Sync_keeps [OF run assms] .
  ultimately show ?thesis using one run by (simp add: since_append)
qed

theorem dedup_skips_known_event_witness:
  "state_has (state (demo_syncer False)) (ID (ev ''g2'' ''uid-b''))
   \<and> syncEvent (demo_env None) (demo_syncer False) [] (ev ''g2'' ''uid-b'') =
       (Return None, ev ''g2'' ''uid-b'', demo_syncer False,
        [Log Debug ''Event already synced, skipping.''])
   \<and> ''g2'' \<notin> ID ` set (creates (since [] (snd (snd (Sync (demo_env None) (demo_syncer False) [])))))
   \<and> state_get (state (fst (snd (Sync (demo_env None) (demo_syncer False) [])))) ''g2'' = Some ''uid-b''"
proof -
  have h: "state_has (state (demo_syncer False)) (ID (ev ''g2'' ''uid-b''))"
    by (simp add: demo_syncer_def ev_def state_has_def)
  have i: "ID (ev ''g2'' ''uid-b'') = ''g2''" by (simp add: ev_def)
  have g: "state_get (state (demo_syncer False)) ''g2'' = Some ''uid-b''"
    by (simp add: demo_syncer_def)
  show ?thesis
    using h dedup_skips_known_event [OF h, of "demo_env None" "[]"] g unfolding i by simp
qed

text \<open>
  C2 (dry-run purity). With the dry-run flag set, a cycle returns the syncer it was given
  (so the in-memory state is unchanged), writes nothing to the state file and hands no
  event to the destination create.
\<close>

theorem dry_run_is_pure:
  assumes "dryRun s"
  shows "fst (snd (Sync env s tr)) = s
         \<and> writes (since tr (snd (snd (Sync env s tr)))) = []
         \<and> creates (since tr (snd (snd (Sync env s tr)))) = []"
  using Sync_dry [OF assms, of env tr "fst (Sync env s tr)" "fst (snd (Sync env s tr))"
      "snd (snd (Sync env s tr))"]
  by simp

theorem dry_run_is_pure_witness:
  "dryRun (demo_syncer True)
   \<and> fst (snd (Sync (demo_env None) (demo_syncer True) [])) = demo_syncer True
   \<and> writes (since [] (snd (snd (Sync (demo_env None) (demo_syncer True) [])))) = []
   \<and> creates (since [] (snd (snd (Sync (demo_env None) (demo_syncer True) [])))) = []
   \<and> length (fetched (since [] (snd (snd (Sync (demo_env None) (demo_syncer True) []))))) = 3"
proof -
  have h: "dryRun (demo_syncer True)" by (simp add: demo_syncer_def)
  have f: "length (fetched (since [] (snd (snd (Sync (demo_env None) (demo_syncer True) []))))) = 3"
    by (simp add: Sync_def fetchAllGoogleEvents_def demo_syncer_def demo_env_def syncEvent_def
        state_has_def ev_def time_In_def since_def Let_def trace_append)
  show ?thesis using h dry_run_is_pure [OF h, of "demo_env None" "[]"] f by simp
qed

text \<open>
  C3 (running twice) fails as stated: in the example world the destination refuses "g3" in
  the first cycle, the cycle returns, the state file is written without error, the second
  cycle fetches the same three events, and "g3" is handed to the destination create again.
\<close>

theorem second_cycle_creates_counterexample:
  "fst twice_run1 = Return None
   \<and> writes (since [] (snd (snd twice_run1))) = [''{g1:uuid-1;g2:uid-b;}'']
   \<and> last (butlast (snd (snd twice_run1))) =
        WriteFile stateFile ''{g1:uuid-1;g2:uid-b;}'' None
   \<and> fetched (since (snd (snd twice_run1)) (snd (snd twice_run2))) =
        fetched (since [] (snd (snd twice_run1)))
   \<and> map ID (creates (since (snd (snd twice_run1)) (snd (snd twice_run2)))) = [''g3'']"
  by (simp add: twice_run2_def twice_run1_def Sync_def fetchAllGoogleEvents_def
        demo_syncer_def demo_env_def demo_json_def syncEvent_def saveState_def state_has_def
        ev_def time_In_def Let_def since_def stateFile_def)

text \<open>
  C3, as amended. Let a first cycle return with none of its creates
  refused, and let a second cycle start from the state the first one ended with, without
  dry-run having been switched off in between, and fetch no event whose ID the first cycle
  did not fetch. Then the second cycle hands nothing to the destination create. The
  environment and the trace of the second cycle are arbitrary: the syncer of the second
  cycle may be the same one or one restarted from the persisted state.
\<close>

theorem second_cycle_creates_nothing:
  assumes run1: "Sync env s tr = (Return None, s1, tr1)"
    and ok: "failed_creates (since tr tr1) = []"
    and st: "state s2 = state s1"
    and dr: "dryRun s \<longrightarrow> dryRun s2"
    and run2: "Sync env2 s2 tr1' = (r2, s2', tr2)"
    and sub: "ID ` set (fetched (since tr1' tr2)) \<subseteq> ID ` set (fetched (since tr tr1))"
  shows "creates (since tr1' tr2) = []"
proof (cases "dryRun s2")
  case True
  from Sync_dry [OF True run2] show ?thesis by simp
next
  case False
  with dr have nd: "\<not> dryRun s" by blast
  from run1 show ?thesis
  proof (rule Sync_returns)
    fix xf xe xs
    assume xf: "creates xf = []"
      and loop: "syncEvents env s
         (tr @ [Log Info ''Starting sync cycle.''] @ xf @ [Log Info ''Fetched all Google events.''])
         (fetched xf) =
       (Return (), s1,
        (tr @ [Log Info ''Starting sync cycle.''] @ xf @ [Log Info ''Fetched all Google events.'']) @ xe)"
      and xe: "fetched xe = []"
      and xs: "creates xs = []" "fetched xs = []"
      and s1: "since tr tr1 = [Log Info ''Starting sync cycle.''] @ xf @
          [Log Info ''Fetched all Google events.''] @ xe @ xs @ [Log Info ''Sync cycle finished.'']"
    have f1: "fetched (since tr tr1) = fetched xf"
      and fc1: "failed_creates (since tr tr1) = failed_creates xe"
      unfolding s1 using xs xe failed_creates_Nil [OF xf] failed_creates_Nil [OF xs(1)]
      by (simp_all add: trace_append)
    from syncEvents_attempt [OF loop nd, unfolded since_append] ok [unfolded fc1]
    have known: "\<forall>e \<in> set (fetched xf). state_has (state s1) (ID e)" by simp
    from Sync_creates [OF run2] obtain ext where
      ext: "tr2 = tr1' @ ext"
           "\<forall>c \<in> set (creates ext). \<not> state_has (state s2) (ID c) \<and> ID c \<in> ID ` set (fetched ext)"
      by blast
    have s2: "since tr1' tr2 = ext" using ext(1) by (simp only: since_append)
    have "creates ext = []"
    proof (cases "creates ext")
      case Nil
      then show ?thesis .
    next
      case (Cons c cs)
      then have c: "c \<in> set (creates ext)" by simp
      with ext(2) have n: "\<not> state_has (state s1) (ID c)" and i: "ID c \<in> ID ` set (fetched ext)"
        using st by simp_all
      from i sub [unfolded s2 f1] have "ID c \<in> ID ` set (fetched xf)" by blast
      with known have "state_has (state s1) (ID c)" by auto
      with n show ?thesis by contradiction
    qed
    then show ?thesis unfolding s2 by simp
  qed
qed

theorem second_cycle_creates_nothing_witness:
  "fst calm_run1 = Return None
   \<and> map ID (creates (since [] (snd (snd calm_run1)))) = [''g1'']
   \<and> failed_creates (since [] (snd (snd calm_run1))) = []
   \<and> map ID (fetched (since [] (snd (snd calm_run1)))) = [''g1'', ''g2'', ''g3'']
   \<and> map ID (fetched (since (snd (snd calm_run1)) (snd (snd calm_run2)))) = [''g1'', ''g2'', ''g3'']
   \<and> creates (since (snd (snd calm_run1)) (snd (snd calm_run2))) = []"
proof -
  have e1: "fst calm_run1 = Return None
   \<and> map ID (creates (since [] (snd (snd calm_run1)))) = [''g1'']
   \<and> failed_creates (since [] (snd (snd calm_run1))) = []
   \<and> map ID (fetched (since [] (snd (snd calm_run1)))) = [''g1'', ''g2'', ''g3'']"
    by (simp add: calm_run1_def calm_syncer_def Sync_def fetchAllGoogleEvents_def
        demo_syncer_def demo_env_def syncEvent_def saveState_def state_has_def ev_def
        time_In_def Let_def since_def)
  have e2: "map ID (fetched (since (snd (snd calm_run1)) (snd (snd calm_run2)))) = [''g1'', ''g2'', ''g3'']"
    by (simp add: calm_run2_def calm_run1_def calm_syncer_def Sync_def fetchAllGoogleEvents_def
        demo_syncer_def demo_env_def syncEvent_def saveState_def state_has_def ev_def
        time_In_def Let_def since_def)
  have run1: "Sync (demo_env None) calm_syncer [] =
      (Return None, fst (snd calm_run1), snd (snd calm_run1))"
    using e1 by (simp add: calm_run1_def prod_eq_iff)
  have run2: "Sync (demo_env None) (fst (snd calm_run1)) (snd (snd calm_run1)) =
      (fst calm_run2, fst (snd calm_run2), snd (snd calm_run2))"
    by (simp add: calm_run2_def)
  have sub: "ID ` set (fetched (since (snd (snd calm_run1)) (snd (snd calm_run2))))
      \<subseteq> ID ` set (fetched (since [] (snd (snd calm_run1))))"
  proof -
    have "ID ` set (fetched (since (snd (snd calm_run1)) (snd (snd calm_run2)))) =
        set (map ID (fetched (since (snd (snd calm_run1)) (snd (snd calm_run2)))))" by simp
    also have "\<dots> = set (map ID (fetched (since [] (snd (snd calm_run1)))))"
      using e1 e2 by simp
    finally show ?thesis by simp
  qed
  have ok: "failed_creates (since [] (snd (snd calm_run1))) = []" using e1 by simp
  have dr: "dryRun calm_syncer \<longrightarrow> dryRun (fst (snd calm_run1))"
    by (simp add: calm_syncer_def demo_syncer_def)
  from second_cycle_creates_nothing [OF run1 ok refl dr run2 sub] e1 e2
  show ?thesis by simp
qed

text \<open>
  C4 (UID generation). For an event that is not yet in the state: if it arrives without a
  UID, \<open>syncEvent\<close> asks the generator once and stores what it answered, if it arrives with
  one, the UID is kept; and the only event ever handed to the destination create is the
  event with that UID. The generator is an external library: that its answer is not empty
  is its contract, assumed here.
\<close>

theorem uid_generated_before_create:
  assumes "\<not> state_has (state s) (ID event)"
    and "\<forall>h. uuid_New_String env h \<noteq> []"
  shows "(case syncEvent env s tr event of
            (r, event', s', tr') \<Rightarrow>
              UID event' \<noteq> []
              \<and> (UID event \<noteq> [] \<longrightarrow> UID event' = UID event
                     \<and> (\<forall>u. GenerateUID u \<notin> set (since tr tr')))
              \<and> (UID event = [] \<longrightarrow>
                     UID event' =
                       uuid_New_String env
                         (tr @ [Log Info ''New event found, syncing to iCloud.'',
                                Log Warn ''Google event has no UID, generating a new one.''])
                     \<and> GenerateUID (UID event') \<in> set (since tr tr'))
              \<and> (\<forall>c \<in> set (creates (since tr tr')). c = event'))"
proof (cases "UID event = []")
  case True
  with assms show ?thesis
    by (cases "icloud_SyncEvent env
                 (tr @ [Log Info ''New event found, syncing to iCloud.'',
                        Log Warn ''Google event has no UID, generating a new one.'',
                        GenerateUID (uuid_New_String env
                          (tr @ [Log Info ''New event found, syncing to iCloud.'',
                                 Log Warn ''Google event has no UID, generating a new one.'']))])
                 (icloudClient s)
                 (event\<lparr>UID := uuid_New_String env
                            (tr @ [Log Info ''New event found, syncing to iCloud.'',
                                   Log Warn ''Google event has no UID, generating a new one.'']),
                         StartTime := time_In (StartTime event) (primaryTimeZone s),
                         EndTime := time_In (EndTime event) (primaryTimeZone s)\<rparr>)";
        cases "state s")
       (simp_all add: syncEvent_def Let_def since_def)
next
  case False
  with assms show ?thesis
    by (cases "icloud_SyncEvent env
                 (tr @ [Log Info ''New event found, syncing to iCloud.''])
                 (icloudClient s)
                 (event\<lparr>StartTime := time_In (StartTime event) (primaryTimeZone s),
                         EndTime := time_In (EndTime event) (primaryTimeZone s)\<rparr>)";
        cases "state s")
       (simp_all add: syncEvent_def Let_def since_def)
qed

theorem uid_generated_before_create_witness:
  "\<not> state_has (state (demo_syncer False)) (ID (ev ''g1'' []))
   \<and> UID (ev ''g1'' []) = []
   \<and> UID (fst (snd (syncEvent (demo_env None) (demo_syncer False) [] (ev ''g1'' [])))) = ''uuid-1''
   \<and> map UID (creates (snd (snd (snd (syncEvent (demo_env None) (demo_syncer False) [] (ev ''g1'' [])))))) = [''uuid-1'']"
proof -
  have n: "\<not> state_has (state (demo_syncer False)) (ID (ev ''g1'' []))"
    by (simp add: demo_syncer_def ev_def state_has_def)
  have g: "\<forall>h. uuid_New_String (demo_env None) h \<noteq> []"
    by (simp add: demo_env_def)
  have c: "length (creates (snd (snd (snd (syncEvent (demo_env None) (demo_syncer False) [] (ev ''g1'' [])))))) = 1"
    by (simp add: syncEvent_def demo_env_def demo_syncer_def ev_def state_has_def Let_def)
  have u: "uuid_New_String (demo_env None) h = ''uuid-1''" for h
    by (simp add: demo_env_def)
  have e: "UID (ev ''g1'' []) = []" by (simp add: ev_def)
  show ?thesis
    using uid_generated_before_create [OF n g, of "[]"] n c
    by (cases "syncEvent (demo_env None) (demo_syncer False) [] (ev ''g1'' [])")
       (auto simp: u e since_def length_Suc_conv)
qed

text \<open>
  C5 (state is recorded exactly on success) does not hold of the code on a state the
  program can reach. A state file holding the JSON document \<^verbatim>\<open>null\<close> is loaded without
  error and leaves the state map nil. For the first new event, with dry-run off, the
  destination accepts the create; the assignment \<^verbatim>\<open>s.state[event.ID] = event.UID\<close> then
  panics: the create succeeded, yet the state holds no entry for the event, and the loop of
  the cycle does not go on to the next event.
\<close>

theorem null_state_file_create_not_recorded:
  "NewSyncer null_env Info [''alice''] [''work,home''] ''/calendars/home/'' False ''UTC'' [] =
     (Inr null_syncer, null_trace)
   \<and> \<not> state_has (state null_syncer) (ID (ev ''g1'' []))
   \<and> \<not> dryRun null_syncer
   \<and> icloud_SyncEvent null_env
        (null_trace @ [Log Info ''New event found, syncing to iCloud.'',
                       Log Warn ''Google event has no UID, generating a new one.'',
                       GenerateUID ''uuid-1''])
        ''/calendars/home/'' (ev ''g1'' ''uuid-1'') = None
   \<and> syncEvent null_env null_syncer null_trace (ev ''g1'' []) =
       (Panic ''assignment to entry in nil map'', ev ''g1'' ''uuid-1'', null_syncer,
        null_trace @ [Log Info ''New event found, syncing to iCloud.'',
                      Log Warn ''Google event has no UID, generating a new one.'',
                      GenerateUID ''uuid-1'',
                      ICloudSyncEvent ''/calendars/home/'' (ev ''g1'' ''uuid-1'') None])
   \<and> state_get (state (fst (snd (snd (syncEvent null_env null_syncer null_trace (ev ''g1'' []))))))
        ''g1'' = None
   \<and> syncEvents null_env null_syncer null_trace [ev ''g1'' [], ev ''g3'' ''uid-c''] =
       (Panic ''assignment to entry in nil map'', null_syncer,
        null_trace @ [Log Info ''New event found, syncing to iCloud.'',
                      Log Warn ''Google event has no UID, generating a new one.'',
                      GenerateUID ''uuid-1'',
                      ICloudSyncEvent ''/calendars/home/'' (ev ''g1'' ''uuid-1'') None])"
  by (simp add: NewSyncer_def loadState_def null_env_def demo_env_def null_syncer_def
        null_trace_def stateFile_def syncEvent_def state_has_def ev_def time_In_def Let_def)

text \<open>
  C6 (loading the state at construction). \<open>NewSyncer\<close> fails exactly when the state file
  cannot be read for a reason other than its absence, or its content does not parse; when
  the file is absent it succeeds with an allocated empty map, and when the file parses it
  succeeds with the parsed state.
\<close>

theorem construction_fatal_iff_load_failure:
  "(isl (fst (NewSyncer env lg gClients gCalIDs iClient dry tz tr)) \<longleftrightarrow>
      (case os_ReadFile env tr stateFile of
         Inl e \<Rightarrow> e \<noteq> ENOENT
       | Inr data \<Rightarrow> isl (json_Unmarshal env data)))
   \<and> (os_ReadFile env tr stateFile = Inl ENOENT \<longrightarrow>
        fst (NewSyncer env lg gClients gCalIDs iClient dry tz tr) =
          Inr \<lparr>logger = lg, googleClients = gClients, googleCalIDs = gCalIDs,
               icloudClient = iClient, state = Some Map.empty, dryRun = dry,
               primaryTimeZone = tz\<rparr>)
   \<and> (\<forall>e. os_ReadFile env tr stateFile = Inl e \<and> e \<noteq> ENOENT \<longrightarrow>
        fst (NewSyncer env lg gClients gCalIDs iClient dry tz tr) =
          Inl (Wrap ''failed to load sync state'' (PathError ''open'' stateFile e)))
   \<and> (\<forall>data je. os_ReadFile env tr stateFile = Inr data \<and> json_Unmarshal env data = Inl je \<longrightarrow>
        fst (NewSyncer env lg gClients gCalIDs iClient dry tz tr) =
          Inl (Wrap ''failed to load sync state'' (JSONError je)))
   \<and> (\<forall>data st. os_ReadFile env tr stateFile = Inr data \<and> json_Unmarshal env data = Inr st \<longrightarrow>
        fst (NewSyncer env lg gClients gCalIDs iClient dry tz tr) =
          Inr \<lparr>logger = lg, googleClients = gClients, googleCalIDs = gCalIDs,
               icloudClient = iClient, state = st, dryRun = dry,
               primaryTimeZone = tz\<rparr>)"
  by (auto simp: NewSyncer_def loadState_def Let_def split: sum.splits)

theorem construction_fatal_iff_load_failure_witness:
  "os_ReadFile (demo_env None) [] stateFile = Inl ENOENT
   \<and> state (projr (fst (NewSyncer (demo_env None) Info [''alice''] [''work,home'']
        ''/calendars/home/'' False ''UTC'' []))) = Some Map.empty
   \<and> \<not> isl (fst (NewSyncer (demo_env None) Info [''alice''] [''work,home'']
        ''/calendars/home/'' False ''UTC'' []))
   \<and> isl (fst (NewSyncer ((demo_env None)\<lparr>os_ReadFile := (\<lambda>tr path. Inr ''{'')\<rparr>)
        Info [''alice''] [''work,home''] ''/calendars/home/'' False ''UTC'' []))
   \<and> isl (fst (NewSyncer ((demo_env None)\<lparr>os_ReadFile := (\<lambda>tr path. Inl 13)\<rparr>)
        Info [''alice''] [''work,home''] ''/calendars/home/'' False ''UTC'' []))"
proof -
  have r: "os_ReadFile (demo_env None) [] stateFile = Inl ENOENT"
    by (simp add: demo_env_def)
  have a: "isl (fst (NewSyncer ((demo_env None)\<lparr>os_ReadFile := (\<lambda>tr path. Inr ''{'')\<rparr>)
        Info [''alice''] [''work,home''] ''/calendars/home/'' False ''UTC'' []))"
    using construction_fatal_iff_load_failure
      [where env = "(demo_env None)\<lparr>os_ReadFile := (\<lambda>tr path. Inr ''{'')\<rparr>"
         and tr = "[]" and lg = Info and gClients = "[''alice'']" and gCalIDs = "[''work,home'']"
         and iClient = "''/calendars/home/''" and dry = False and tz = "''UTC''"]
    by (simp add: demo_env_def)
  have b: "isl (fst (NewSyncer ((demo_env None)\<lparr>os_ReadFile := (\<lambda>tr path. Inl 13)\<rparr>)
        Info [''alice''] [''work,home''] ''/calendars/home/'' False ''UTC'' []))"
    using construction_fatal_iff_load_failure
      [where env = "(demo_env None)\<lparr>os_ReadFile := (\<lambda>tr path. Inl 13)\<rparr>"
         and tr = "[]" and lg = Info and gClients = "[''alice'']" and gCalIDs = "[''work,home'']"
         and iClient = "''/calendars/home/''" and dry = False and tz = "''UTC''"]
    by (simp add: demo_env_def ENOENT_def)
  show ?thesis
    using r a b construction_fatal_iff_load_failure
      [where env = "demo_env None"
         and tr = "[]" and lg = Info and gClients = "[''alice'']" and gCalIDs = "[''work,home'']"
         and iClient = "''/calendars/home/''" and dry = False and tz = "''UTC''"]
    by simp
qed

text \<open>
  C7 (a failed fetch does not abort the cycle) does not hold of the code on a state the
  program can reach. From the syncer built on a state file holding \<^verbatim>\<open>null\<close>: the fetch of
  "work" fails and is skipped, the fetch of "home" delivers the new events "g1" and "g3"
  (and "g2"), the create of "g1" succeeds, and the cycle panics on recording it. The cycle
  is aborted: "g3", delivered by a successful fetch and new, is never handed to the
  destination create.
\<close>

theorem null_state_file_cycle_aborts:
  "google_GetUpcomingEvents null_env (null_trace @ [Log Info ''Starting sync cycle.''])
       ''alice'' ''work'' 7 = Inl (ErrorString ''503'')
   \<and> is_Panic (fst (Sync null_env null_syncer null_trace))
   \<and> queried (since null_trace (snd (snd (Sync null_env null_syncer null_trace)))) =
       [(''alice'', ''work''), (''alice'', ''home'')]
   \<and> fetched (since null_trace (snd (snd (Sync null_env null_syncer null_trace)))) =
       [ev ''g1'' [], ev ''g2'' ''uid-b'', ev ''g3'' ''uid-c'']
   \<and> \<not> state_has (state null_syncer) ''g3''
   \<and> creates (since null_trace (snd (snd (Sync null_env null_syncer null_trace)))) =
       [ev ''g1'' ''uuid-1'']
   \<and> failed_creates (since null_trace (snd (snd (Sync null_env null_syncer null_trace)))) = []
   \<and> \<not> state_has (state (fst (snd (Sync null_env null_syncer null_trace)))) ''g1''
   \<and> \<not> state_has (state (fst (snd (Sync null_env null_syncer null_trace)))) ''g3''"
  by (simp add: Sync_def fetchAllGoogleEvents_def null_env_def demo_env_def null_syncer_def
        null_trace_def syncEvent_def state_has_def ev_def time_In_def Let_def since_def)

text \<open>
  C8 (a cycle never fails) does not hold of the code on a state the program can reach.
  From the syncer built on a state file holding \<^verbatim>\<open>null\<close>, with a non-empty calendar id
  list, one fetch failing and the first create succeeding, \<open>Sync\<close> does not return the nil
  error: it panics, before the state is saved.
\<close>

theorem null_state_file_sync_panics:
  "googleCalIDs null_syncer = [''work,home'']
   \<and> Sync null_env null_syncer null_trace =
       (Panic ''assignment to entry in nil map'', null_syncer,
        null_trace @
        [Log Info ''Starting sync cycle.'',
         GetUpcomingEvents ''alice'' ''work'' 7 (Inl (ErrorString ''503'')),
         Log Error ''Could not fetch events for a google calendar'',
         GetUpcomingEvents ''alice'' ''home'' 7
           (Inr [ev ''g1'' [], ev ''g2'' ''uid-b'', ev ''g3'' ''uid-c'']),
         Log Info ''Fetched all Google events.'',
         Log Info ''New event found, syncing to iCloud.'',
         Log Warn ''Google event has no UID, generating a new one.'',
         GenerateUID ''uuid-1'',
         ICloudSyncEvent ''/calendars/home/'' (ev ''g1'' ''uuid-1'') None])
   \<and> fst (Sync null_env null_syncer null_trace) \<noteq> Return None
   \<and> writes (since null_trace (snd (snd (Sync null_env null_syncer null_trace)))) = []"
  by (simp add: Sync_def fetchAllGoogleEvents_def null_env_def demo_env_def null_syncer_def
        null_trace_def syncEvent_def state_has_def ev_def time_In_def Let_def since_def)

text \<open>
  C9 (the unguarded index). \<open>fetchAllGoogleEvents\<close> reads the first element of the calendar
  id list without a check: the call panics exactly when that list has no first element,
  that is, it is free of the panic exactly when the list has length at least one.
\<close>

theorem fetch_index_panics_iff_no_calendar_ids:
  "is_Panic (fst (fetchAllGoogleEvents env s tr)) = (\<not> 1 \<le> length (googleCalIDs s))"
  by (cases "googleCalIDs s") (auto simp: fetchAllGoogleEvents_def split: prod.splits)

theorem fetch_index_panics_iff_no_calendar_ids_witness:
  "is_Panic (fst (fetchAllGoogleEvents (demo_env None) ((demo_syncer False)\<lparr>googleCalIDs := []\<rparr>) []))
   \<and> \<not> is_Panic (fst (fetchAllGoogleEvents (demo_env None) (demo_syncer False) []))"
  using fetch_index_panics_iff_no_calendar_ids [where env = "demo_env None"
      and s = "(demo_syncer False)\<lparr>googleCalIDs := []\<rparr>" and tr = "[]"]
    fetch_index_panics_iff_no_calendar_ids [where env = "demo_env None"
      and s = "demo_syncer False" and tr = "[]"]
  by (simp add: demo_syncer_def)

text \<open>
  C10 (timezone normalisation). Whatever \<open>syncEvent\<close> does with an event, the start and
  end times it leaves denote the instants they denoted before: at most their location
  differs (it is the syncer's primary time zone once the event was not skipped), and apart
  from the two times and the UID every field of the event is as it was.
\<close>

theorem timezone_preserves_instants:
  "(case syncEvent env s tr event of
      (r, event', s', tr') \<Rightarrow>
        instant (StartTime event') = instant (StartTime event)
        \<and> instant (EndTime event') = instant (EndTime event)
        \<and> StartTime event' = (StartTime event)\<lparr>loc := loc (StartTime event')\<rparr>
        \<and> EndTime event' = (EndTime event)\<lparr>loc := loc (EndTime event')\<rparr>
        \<and> ID event' = ID event \<and> Title event' = Title event
        \<and> Description event' = Description event \<and> Location event' = Location event
        \<and> Organizer event' = Organizer event \<and> Attendees event' = Attendees event
        \<and> Source event' = Source event
        \<and> (\<not> state_has (state s) (ID event) \<longrightarrow>
             loc (StartTime event') = primaryTimeZone s \<and> loc (EndTime event') = primaryTimeZone s))"
  by (auto simp: syncEvent_def Let_def time_In_def split: if_splits option.splits)

theorem timezone_preserves_instants_witness:
  "(case syncEvent (demo_env None) (demo_syncer False) [] (ev ''g1'' []) of
      (r, event', s', tr') \<Rightarrow>
        instant (StartTime event') = 0 \<and> instant (EndTime event') = 3600
        \<and> loc (StartTime event') = ''Europe/Paris'' \<and> loc (EndTime event') = ''Europe/Paris''
        \<and> Title event' = ''standup'' \<and> ID event' = ''g1'')"
proof -
  have n: "\<not> state_has (state (demo_syncer False)) (ID (ev ''g1'' []))"
    by (simp add: demo_syncer_def ev_def state_has_def)
  have tz: "primaryTimeZone (demo_syncer False) = ''Europe/Paris''"
    by (simp add: demo_syncer_def)
  show ?thesis
    using timezone_preserves_instants [where env = "demo_env None" and s = "demo_syncer False"
        and tr = "[]" and event = "ev ''g1'' []"] n tz
    by (auto simp: ev_def split: prod.splits)
qed

section \<open>Further properties\<close>

text \<open>
  X1 (assignment to a nil state map). With a nil state map and dry-run off every event is
  new and is handed to the destination create; the syncer is never changed; and
  \<open>syncEvent\<close> panics exactly when that create succeeds, because the assignment
  \<^verbatim>\<open>s.state[event.ID] = event.UID\<close> then writes to a nil map. The properties that follow
  say what holds when the map is allocated.
\<close>

theorem nil_state_map_panics_on_success:
  assumes "state s = None" and "\<not> dryRun s"
  shows "(case syncEvent env s tr event of
            (r, event', s', tr') \<Rightarrow>
              creates (since tr tr') = [event'] \<and> s' = s
              \<and> (is_Panic r \<longleftrightarrow> failed_creates (since tr tr') = []))"
proof (cases "UID event = []")
  case True
  with assms show ?thesis
    by (cases "icloud_SyncEvent env
                 (tr @ [Log Info ''New event found, syncing to iCloud.'',
                        Log Warn ''Google event has no UID, generating a new one.'',
                        GenerateUID (uuid_New_String env
                          (tr @ [Log Info ''New event found, syncing to iCloud.'',
                                 Log Warn ''Google event has no UID, generating a new one.'']))])
                 (icloudClient s)
                 (event\<lparr>UID := uuid_New_String env
                            (tr @ [Log Info ''New event found, syncing to iCloud.'',
                                   Log Warn ''Google event has no UID, generating a new one.'']),
                         StartTime := time_In (StartTime event) (primaryTimeZone s),
                         EndTime := time_In (EndTime event) (primaryTimeZone s)\<rparr>)")
       (simp_all add: syncEvent_def Let_def since_def state_has_def)
next
  case False
  with assms show ?thesis
    by (cases "icloud_SyncEvent env
                 (tr @ [Log Info ''New event found, syncing to iCloud.''])
                 (icloudClient s)
                 (event\<lparr>StartTime := time_In (StartTime event) (primaryTimeZone s),
                         EndTime := time_In (EndTime event) (primaryTimeZone s)\<rparr>)")
       (simp_all add: syncEvent_def Let_def since_def state_has_def)
qed

theorem nil_state_map_panics_on_success_witness:
  "state (projr (fst (NewSyncer null_env Info [''alice''] [''work,home'']
       ''/calendars/home/'' False ''UTC'' []))) = None
   \<and> \<not> dryRun (projr (fst (NewSyncer null_env Info [''alice''] [''work,home'']
       ''/calendars/home/'' False ''UTC'' [])))
   \<and> is_Panic (fst (syncEvent null_env
        (projr (fst (NewSyncer null_env Info [''alice''] [''work,home'']
           ''/calendars/home/'' False ''UTC'' []))) [] (ev ''g1'' [])))
   \<and> is_Panic (fst (Sync null_env
        (projr (fst (NewSyncer null_env Info [''alice''] [''work,home'']
           ''/calendars/home/'' False ''UTC'' []))) []))"
proof -
  have n: "fst (NewSyncer null_env Info [''alice''] [''work,home'']
       ''/calendars/home/'' False ''UTC'' []) =
     Inr \<lparr>logger = Info, googleClients = [''alice''], googleCalIDs = [''work,home''],
          icloudClient = ''/calendars/home/'', state = None, dryRun = False,
          primaryTimeZone = ''UTC''\<rparr>"
    by (simp add: NewSyncer_def loadState_def null_env_def demo_env_def Let_def)
  have h: "state \<lparr>logger = Info, googleClients = [''alice''], googleCalIDs = [''work,home''],
          icloudClient = ''/calendars/home/'', state = None, dryRun = False,
          primaryTimeZone = ''UTC''\<rparr> = None"
    "\<not> dryRun \<lparr>logger = Info, googleClients = [''alice''], googleCalIDs = [''work,home''],
          icloudClient = ''/calendars/home/'', state = None, dryRun = False,
          primaryTimeZone = ''UTC''\<rparr>"
    by simp_all
  have f: "failed_creates (since [] (snd (snd (snd (syncEvent null_env
        \<lparr>logger = Info, googleClients = [''alice''], googleCalIDs = [''work,home''],
          icloudClient = ''/calendars/home/'', state = None, dryRun = False,
          primaryTimeZone = ''UTC''\<rparr> [] (ev ''g1'' [])))))) = []"
    by (simp add: syncEvent_def null_env_def demo_env_def ev_def state_has_def Let_def since_def)
  have c: "is_Panic (fst (Sync null_env
        \<lparr>logger = Info, googleClients = [''alice''], googleCalIDs = [''work,home''],
          icloudClient = ''/calendars/home/'', state = None, dryRun = False,
          primaryTimeZone = ''UTC''\<rparr> []))"
    by (simp add: Sync_def fetchAllGoogleEvents_def syncEvent_def null_env_def demo_env_def
        ev_def state_has_def time_In_def Let_def)
  show ?thesis
    using nil_state_map_panics_on_success [OF h, where env = null_env and tr = "[]"
        and event = "ev ''g1'' []"] f c
    unfolding n
    by (cases "syncEvent null_env
        \<lparr>logger = Info, googleClients = [''alice''], googleCalIDs = [''work,home''],
          icloudClient = ''/calendars/home/'', state = None, dryRun = False,
          primaryTimeZone = ''UTC''\<rparr> [] (ev ''g1'' [])") simp
qed

text \<open>
  X2 (state is recorded exactly when the destination accepts, on an allocated map). For an
  event that is not yet in the state, with dry-run off and an allocated state map: the
  last call of \<open>syncEvent\<close> is the destination create of the event, answered by the
  environment, and it is the only create; afterwards the state maps the event's ID to its
  UID if and only if the environment accepted that create; on acceptance the state is the
  old map with exactly this entry added, on refusal the syncer is exactly as it was and the
  wrapped error is returned; and in both cases the loop of the cycle goes on with the next
  event.
\<close>

theorem allocated_state_recorded_iff_destination_accepts:
  assumes "\<not> state_has (state s) (ID event)" and "\<not> dryRun s" and "state s = Some m"
  shows "(case syncEvent env s tr event of
            (r, event', s', tr') \<Rightarrow>
              (let res = icloud_SyncEvent env (butlast tr') (icloudClient s) event' in
               last tr' = ICloudSyncEvent (icloudClient s) event' res
               \<and> creates (since tr tr') = [event']
               \<and> (state_get (state s') (ID event) = Some (UID event') \<longleftrightarrow> res = None)
               \<and> (res = None \<longrightarrow>
                     r = Return None \<and> s' = s\<lparr>state := Some (m(ID event \<mapsto> UID event'))\<rparr>)
               \<and> (res \<noteq> None \<longrightarrow>
                     s' = s \<and> r = Return (map_option (Wrap ''failed to sync event to icloud'') res))
               \<and> syncEvents env s tr (event # rest) =
                   syncEvents env s'
                     (if res = None then tr' else tr' @ [Log Error ''Failed to sync event''])
                     rest))"
proof -
  define pre where "pre = tr @ Log Info ''New event found, syncing to iCloud.'' #
     (if UID event = []
      then [Log Warn ''Google event has no UID, generating a new one.'',
            GenerateUID (uuid_New_String env
              (tr @ [Log Info ''New event found, syncing to iCloud.'',
                     Log Warn ''Google event has no UID, generating a new one.'']))]
      else [])"
  define e3 where "e3 = event
     \<lparr>UID := (if UID event = []
               then uuid_New_String env
                 (tr @ [Log Info ''New event found, syncing to iCloud.'',
                        Log Warn ''Google event has no UID, generating a new one.''])
               else UID event),
      StartTime := time_In (StartTime event) (primaryTimeZone s),
      EndTime := time_In (EndTime event) (primaryTimeZone s)\<rparr>"
  define res where "res = icloud_SyncEvent env pre (icloudClient s) e3"
  have run: "syncEvent env s tr event =
      (case res of
         Some err \<Rightarrow> (Return (Some (Wrap ''failed to sync event to icloud'' err)), e3, s,
                      pre @ [ICloudSyncEvent (icloudClient s) e3 res])
       | None \<Rightarrow> (Return None, e3, s\<lparr>state := Some (m(ID event \<mapsto> UID e3))\<rparr>,
                  pre @ [ICloudSyncEvent (icloudClient s) e3 res]))"
    using assms unfolding res_def e3_def pre_def
    by (auto simp: syncEvent_def Let_def split: option.splits)
  have ext: "since tr (pre @ [ICloudSyncEvent (icloudClient s) e3 res]) =
      Log Info ''New event found, syncing to iCloud.'' #
      (if UID event = []
       then [Log Warn ''Google event has no UID, generating a new one.'', GenerateUID (UID e3)]
       else []) @ [ICloudSyncEvent (icloudClient s) e3 res]"
    by (simp add: pre_def since_def e3_def)
  have absent: "m (ID event) = None"
    using assms(1,3) by (simp add: state_has_def)
  show ?thesis
  proof (cases res)
    case None
    then show ?thesis using run ext by (simp add: trace_append res_def [symmetric])
  next
    case (Some err)
    then show ?thesis using run ext absent assms(3)
      by (simp add: trace_append res_def [symmetric])
  qed
qed

theorem allocated_state_recorded_iff_destination_accepts_witness:
  "\<not> state_has (state (demo_syncer False)) (ID (ev ''g1'' []))
   \<and> \<not> state_has (state (demo_syncer False)) (ID (ev ''g3'' ''uid-c''))
   \<and> \<not> dryRun (demo_syncer False)
   \<and> state (demo_syncer False) = Some [''g2'' \<mapsto> ''uid-b'']
   \<and> state (fst (snd (snd (syncEvent (demo_env None) (demo_syncer False) [] (ev ''g1'' []))))) =
       Some [''g2'' \<mapsto> ''uid-b'', ''g1'' \<mapsto> ''uuid-1'']
   \<and> fst (snd (snd (syncEvent (demo_env None) (demo_syncer False) [] (ev ''g3'' ''uid-c''))))
       = demo_syncer False
   \<and> fst (syncEvent (demo_env None) (demo_syncer False) [] (ev ''g3'' ''uid-c'')) =
       Return (Some (Wrap ''failed to sync event to icloud'' (ErrorString ''507'')))"
proof -
  have h0: "\<not> state_has (state (demo_syncer False)) (ID (ev ''g1'' []))"
    by (simp add: demo_syncer_def ev_def state_has_def)
  have h1: "\<not> state_has (state (demo_syncer False)) (ID (ev ''g3'' ''uid-c''))"
    by (simp add: demo_syncer_def ev_def state_has_def)
  have h2: "\<not> dryRun (demo_syncer False)" by (simp add: demo_syncer_def)
  have h3: "state (demo_syncer False) = Some [''g2'' \<mapsto> ''uid-b'']"
    by (simp add: demo_syncer_def)
  have a: "icloud_SyncEvent (demo_env None) h c e = (if ID e = ''g3'' then Some (ErrorString ''507'') else None)"
    for h c e
    by (simp add: demo_env_def)
  have i1: "ID (fst (snd (syncEvent (demo_env None) (demo_syncer False) [] (ev ''g1'' [])))) = ''g1''"
    and u1: "UID (fst (snd (syncEvent (demo_env None) (demo_syncer False) [] (ev ''g1'' [])))) = ''uuid-1''"
    and i3: "ID (fst (snd (syncEvent (demo_env None) (demo_syncer False) [] (ev ''g3'' ''uid-c'')))) = ''g3''"
    by (simp_all add: syncEvent_def demo_env_def demo_syncer_def ev_def state_has_def Let_def)
  have g1: "state (fst (snd (snd (syncEvent (demo_env None) (demo_syncer False) [] (ev ''g1'' []))))) =
       Some [''g2'' \<mapsto> ''uid-b'', ''g1'' \<mapsto> ''uuid-1'']"
    using allocated_state_recorded_iff_destination_accepts
      [OF h0 h2 h3, where env = "demo_env None" and tr = "[]" and rest = "[]"] i1 u1
    by (cases "syncEvent (demo_env None) (demo_syncer False) [] (ev ''g1'' [])")
       (simp add: a Let_def demo_syncer_def ev_def)
  have g3: "fst (snd (snd (syncEvent (demo_env None) (demo_syncer False) [] (ev ''g3'' ''uid-c''))))
       = demo_syncer False
     \<and> fst (syncEvent (demo_env None) (demo_syncer False) [] (ev ''g3'' ''uid-c'')) =
       Return (Some (Wrap ''failed to sync event to icloud'' (ErrorString ''507'')))"
    using allocated_state_recorded_iff_destination_accepts
      [OF h1 h2 h3, where env = "demo_env None" and tr = "[]" and rest = "[]"] i3
    by (cases "syncEvent (demo_env None) (demo_syncer False) [] (ev ''g3'' ''uid-c'')")
       (simp add: a Let_def)
  from h0 h1 h2 h3 g1 g3 show ?thesis by simp
qed

text \<open>
  X3 (a failed fetch does not abort the cycle, on an allocated map). With a non-empty
  calendar id list and an allocated state map, whatever the fetches answer: the cycle
  returns without error; every answer its trace records is the environment's answer to
  that call; and every pair of a configured client and a calendar id is queried, in order,
  whether or not earlier queries failed. With dry-run off, every event that a successful
  query delivered is either already a key of the state or is handed to the destination
  create during the cycle, after which it is a key of the state unless the destination
  refused it.
\<close>

theorem allocated_state_failed_fetch_does_not_abort:
  assumes "googleCalIDs s = ids0 # others" and "state s \<noteq> None"
  shows "fst (Sync env s tr) = Return None
         \<and> consistent env tr (since tr (snd (snd (Sync env s tr))))
         \<and> queried (since tr (snd (snd (Sync env s tr)))) =
             List.product (googleClients s) (strings_Split ids0 (CHR '',''))
         \<and> (\<not> dryRun s \<longrightarrow>
              (\<forall>e \<in> set (fetched (since tr (snd (snd (Sync env s tr))))).
                 (state_has (state s) (ID e)
                  \<or> ID e \<in> ID ` set (creates (since tr (snd (snd (Sync env s tr))))))
                 \<and> (state_has (state (fst (snd (Sync env s tr)))) (ID e)
                    \<or> ID e \<in> ID ` set (failed_creates (since tr (snd (snd (Sync env s tr))))))))"
proof -
  obtain r s' tr' where run: "Sync env s tr = (r, s', tr')"
    by (cases "Sync env s tr") auto
  have "fst (Sync env s tr) = Return None"
    using sync_returns_nil [OF _ disjI1 [OF assms(2)], of env tr] assms(1) by simp
  with run have r: "r = Return None" by simp
  from run [unfolded r] show ?thesis
  proof (rule Sync_returns)
    fix ids0' others' xf xe xs
    assume ids: "googleCalIDs s = ids0' # others'"
      and xf: "creates xf = []"
        "queried xf = List.product (googleClients s) (strings_Split ids0' (CHR '',''))"
      and loop: "syncEvents env s
         (tr @ [Log Info ''Starting sync cycle.''] @ xf @ [Log Info ''Fetched all Google events.''])
         (fetched xf) =
       (Return (), s',
        (tr @ [Log Info ''Starting sync cycle.''] @ xf @ [Log Info ''Fetched all Google events.'']) @ xe)"
      and xe: "fetched xe = []" "queried xe = []"
      and xs: "creates xs = []" "fetched xs = []" "queried xs = []"
      and st: "since tr tr' = [Log Info ''Starting sync cycle.''] @ xf @
          [Log Info ''Fetched all Google events.''] @ xe @ xs @ [Log Info ''Sync cycle finished.'']"
    from ids assms(1) have same: "ids0' = ids0" by simp
    have f: "fetched (since tr tr') = fetched xf"
      and q: "queried (since tr tr') = queried xf"
      and c: "creates (since tr tr') = creates xe"
      and fc: "failed_creates (since tr tr') = failed_creates xe"
      unfolding st using xf(1) xs xe failed_creates_Nil [OF xf(1)] failed_creates_Nil [OF xs(1)]
      by (simp_all add: trace_append)
    note att = syncEvents_attempt [OF loop, unfolded since_append]
    from run r xf(2) same att Sync_consistent [OF run] show ?thesis by (simp add: f q c fc)
  qed
qed

theorem allocated_state_failed_fetch_does_not_abort_witness:
  "googleCalIDs (demo_syncer False) = ''work,home'' # []
   \<and> state (demo_syncer False) \<noteq> None
   \<and> \<not> dryRun (demo_syncer False)
   \<and> fst (Sync (demo_env None) (demo_syncer False) []) = Return None
   \<and> queried (since [] (snd (snd (Sync (demo_env None) (demo_syncer False) [])))) =
       [(''alice'', ''work''), (''alice'', ''home'')]
   \<and> map ID (fetched (since [] (snd (snd (Sync (demo_env None) (demo_syncer False) []))))) =
       [''g1'', ''g2'', ''g3'']
   \<and> map ID (creates (since [] (snd (snd (Sync (demo_env None) (demo_syncer False) []))))) =
       [''g1'', ''g3'']"
proof -
  have h: "googleCalIDs (demo_syncer False) = ''work,home'' # []"
    "state (demo_syncer False) \<noteq> None" "\<not> dryRun (demo_syncer False)"
    by (simp_all add: demo_syncer_def)
  have sp: "strings_Split ''work,home'' (CHR '','') = [''work'', ''home'']" by simp
  have gc: "googleClients (demo_syncer False) = [''alice'']" by (simp add: demo_syncer_def)
  have t: "map ID (fetched (since [] (snd (snd (Sync (demo_env None) (demo_syncer False) []))))) =
       [''g1'', ''g2'', ''g3'']
   \<and> map ID (creates (since [] (snd (snd (Sync (demo_env None) (demo_syncer False) []))))) =
       [''g1'', ''g3'']"
    by (simp add: Sync_def fetchAllGoogleEvents_def demo_syncer_def demo_env_def syncEvent_def
        saveState_def state_has_def ev_def time_In_def Let_def since_def)
  show ?thesis
    using h t allocated_state_failed_fetch_does_not_abort [OF h(1,2), where env = "demo_env None" and tr = "[]"]
    by (simp add: sp gc)
qed

text \<open>
  X4 (a cycle never returns an error). \<open>Sync\<close> never returns an error, and
  \<open>fetchAllGoogleEvents\<close> never returns one either (so the branch of \<open>Sync\<close> that wraps a
  fetch error is dead), whatever the fetches, the creates and the save answer. Whenever the
  calendar id list is not empty and the state map is allocated (or the run is a dry run),
  \<open>Sync\<close> does return, and what it returns is the nil error.
\<close>

theorem sync_never_returns_error:
  "(\<forall>err. fst (Sync env s tr) \<noteq> Return (Some err))
   \<and> (\<forall>evs err. fst (fetchAllGoogleEvents env s tr) \<noteq> Return (evs, Some err))
   \<and> (googleCalIDs s \<noteq> [] \<and> (state s \<noteq> None \<or> dryRun s) \<longrightarrow>
        fst (Sync env s tr) = Return None)"
proof (intro conjI allI impI)
  fix err
  obtain r s' tr' where run: "Sync env s tr = (r, s', tr')"
    by (cases "Sync env s tr") auto
  from Sync_decomp [OF run] have "r \<noteq> Return (Some err)"
  proof (elim disjE exE conjE)
    assume "r = Panic ''index out of range [0] with length 0''"
    then show ?thesis by simp
  next
    fix rs :: "unit outcome" and tr2 xs
    assume "case rs of Panic msg \<Rightarrow> r = Panic msg \<and> tr' = tr2
            | Return u \<Rightarrow> r = Return None \<and> tr' = tr2 @ xs @ [Log Info ''Sync cycle finished.'']"
    then show ?thesis by (cases rs) auto
  qed
  with run show "fst (Sync env s tr) \<noteq> Return (Some err)" by simp
next
  fix evs err
  show "fst (fetchAllGoogleEvents env s tr) \<noteq> Return (evs, Some err)"
    by (cases "googleCalIDs s") (auto simp: fetchAllGoogleEvents_def split: prod.splits)
next
  assume pre: "googleCalIDs s \<noteq> [] \<and> (state s \<noteq> None \<or> dryRun s)"
  obtain r s' tr' where run: "Sync env s tr = (r, s', tr')"
    by (cases "Sync env s tr") auto
  from Sync_decomp [OF run] pre obtain xf rs tr2 xs where
    loop: "syncEvents env s
          (tr @ [Log Info ''Starting sync cycle.''] @ xf @ [Log Info ''Fetched all Google events.''])
          (fetched xf) = (rs, s', tr2)"
    and fin: "case rs of Panic msg \<Rightarrow> r = Panic msg \<and> tr' = tr2
              | Return u \<Rightarrow> r = Return None \<and> tr' = tr2 @ xs @ [Log Info ''Sync cycle finished.'']"
    by auto
  from pre syncEvents_no_panic [OF _ loop] have "rs = Return ()" by blast
  with fin run show "fst (Sync env s tr) = Return None" by simp
qed

theorem sync_never_returns_error_witness:
  "googleCalIDs (demo_syncer False) \<noteq> []
   \<and> state (demo_syncer False) \<noteq> None
   \<and> fst (Sync (demo_env (Some 28)) (demo_syncer False) []) = Return None
   \<and> map ID (failed_creates (snd (snd (Sync (demo_env (Some 28)) (demo_syncer False) [])))) = [''g3'']
   \<and> length (queried (snd (snd (Sync (demo_env (Some 28)) (demo_syncer False) [])))) = 2
   \<and> length (fetched (snd (snd (Sync (demo_env (Some 28)) (demo_syncer False) [])))) = 3
   \<and> last (butlast (snd (snd (Sync (demo_env (Some 28)) (demo_syncer False) [])))) =
       Log Error ''Failed to save sync state''"
proof -
  have h: "googleCalIDs (demo_syncer False) \<noteq> []" "state (demo_syncer False) \<noteq> None"
    by (simp_all add: demo_syncer_def)
  have t: "map ID (failed_creates (snd (snd (Sync (demo_env (Some 28)) (demo_syncer False) [])))) = [''g3'']
   \<and> length (queried (snd (snd (Sync (demo_env (Some 28)) (demo_syncer False) [])))) = 2
   \<and> length (fetched (snd (snd (Sync (demo_env (Some 28)) (demo_syncer False) [])))) = 3
   \<and> last (butlast (snd (snd (Sync (demo_env (Some 28)) (demo_syncer False) [])))) =
       Log Error ''Failed to save sync state''"
    by (simp add: Sync_def fetchAllGoogleEvents_def demo_syncer_def demo_env_def syncEvent_def
        saveState_def state_has_def ev_def time_In_def Let_def)
  show ?thesis
    using h t sync_never_returns_error [where env = "demo_env (Some 28)" and s = "demo_syncer False"
        and tr = "[]"]
    by simp
qed

end
